theory Spec2Isabelle
  imports Main "HOL-Library.Word"
begin

unbundle bit_operations_syntax

section \<open>The Gadget-2 snapshot reader of scripts/download\_snapshot.py\<close>

text \<open>
  The development embeds \<^verbatim>\<open>read_gadget_snapshot\<close> (lines 13 to 129 of
  \<^verbatim>\<open>src/scripts/download_snapshot.py\<close>). The byte stream is an
  \<^verbatim>\<open>io.BytesIO\<close> (the docstring's type of \<^verbatim>\<open>bstream\<close>): a buffer and a
  position. Exceptions are values of \<open>error\<close>; the function returns either an error or
  its return value together with the stream it leaves behind.
  \<^verbatim>\<open>print_header\<close> only writes to standard output and is left out.
\<close>

subsection \<open>Exceptions\<close>

datatype error =
    StructError           \<comment> \<open>\<^verbatim>\<open>struct.error\<close>: buffer of the wrong size for the format\<close>
  | ValueError string     \<comment> \<open>a \<^verbatim>\<open>ValueError\<close> raised by the source, with its message\<close>
  | NumpyValueError       \<comment> \<open>a \<^verbatim>\<open>ValueError\<close> raised inside numpy (frombuffer, shape)\<close>
  | IndexError            \<comment> \<open>tuple index out of range\<close>

subsection \<open>The byte stream (io.BytesIO)\<close>

type_synonym byte = "8 word"

record bstream =
  buf :: "byte list"
  pos :: nat

text \<open>\<^verbatim>\<open>bstream.seek(n, 1)\<close> with \<open>n \<ge> 0\<close>: the position moves forward by \<open>n\<close>, also
  past the end of the buffer; BytesIO raises nothing.\<close>

definition bseek :: "nat \<Rightarrow> bstream \<Rightarrow> bstream" where
  "bseek n s = s\<lparr>pos := pos s + n\<rparr>"

text \<open>\<^verbatim>\<open>bstream.read(n)\<close>: at most \<open>n\<close> bytes, fewer (possibly none) when the buffer
  ends first; the position advances by the number of bytes returned.\<close>

definition bread :: "nat \<Rightarrow> bstream \<Rightarrow> byte list \<times> bstream" where
  "bread n s =
     (let out = take n (drop (pos s) (buf s))
      in (out, s\<lparr>pos := pos s + length out\<rparr>))"

subsection \<open>struct: native sizes and alignment, little-endian byte order\<close>

datatype fmt_code = FmtI | Fmti | Fmtd   \<comment> \<open>\<^verbatim>\<open>'I'\<close>, \<^verbatim>\<open>'i'\<close>, \<^verbatim>\<open>'d'\<close>\<close>

text \<open>A value unpacked by struct: a Python int, or a Python float kept as the 64 bits of
  its IEEE-754 double.\<close>

datatype hval = HInt int | HFloat "64 word"

fun code_size :: "fmt_code \<Rightarrow> nat" where
  "code_size FmtI = 4"
| "code_size Fmti = 4"
| "code_size Fmtd = 8"

definition align :: "nat \<Rightarrow> nat \<Rightarrow> nat" where
  "align off a = ((off + a - 1) div a) * a"

fun calcsize_from :: "nat \<Rightarrow> fmt_code list \<Rightarrow> nat" where
  "calcsize_from off [] = off"
| "calcsize_from off (c # cs) = calcsize_from (align off (code_size c) + code_size c) cs"

definition calcsize :: "fmt_code list \<Rightarrow> nat" where
  "calcsize fmt = calcsize_from 0 fmt"

fun le_nat :: "byte list \<Rightarrow> nat" where
  "le_nat [] = 0"
| "le_nat (b # bs) = unat b + 256 * le_nat bs"

fun decode :: "fmt_code \<Rightarrow> byte list \<Rightarrow> hval" where
  "decode FmtI bs = HInt (int (le_nat bs))"
| "decode Fmti bs =
     (let n = int (le_nat bs) in HInt (if n < 2 ^ 31 then n else n - 2 ^ 32))"
| "decode Fmtd bs = HFloat (word_of_nat (le_nat bs))"

fun unpack_from :: "nat \<Rightarrow> fmt_code list \<Rightarrow> byte list \<Rightarrow> hval list" where
  "unpack_from off [] bs = []"
| "unpack_from off (c # cs) bs =
     (let a = align off (code_size c)
      in decode c (take (code_size c) (drop a bs)) # unpack_from (a + code_size c) cs bs)"

definition struct_unpack :: "fmt_code list \<Rightarrow> byte list \<Rightarrow> error + hval list" where
  "struct_unpack fmt bs =
     (if length bs = calcsize fmt then Inr (unpack_from 0 fmt bs) else Inl StructError)"

text \<open>\<^verbatim>\<open>struct.unpack('I', bytes)[0]\<close>\<close>

definition unpack_uint :: "byte list \<Rightarrow> error + nat" where
  "unpack_uint bs = (if length bs = 4 then Inr (le_nat bs) else Inl StructError)"

text \<open>\<^verbatim>\<open>gadget_header_fmt = '6I6dddii6Iiiddddii6Ii'\<close>\<close>

definition gadget_header_fmt :: "fmt_code list" where
  "gadget_header_fmt =
     replicate 6 FmtI @ replicate 6 Fmtd @ [Fmtd, Fmtd, Fmti, Fmti] @
     replicate 6 FmtI @ [Fmti, Fmti, Fmtd, Fmtd, Fmtd, Fmtd, Fmti, Fmti] @
     replicate 6 FmtI @ [Fmti]"

subsection \<open>The header\<close>

text \<open>The namedtuple \<^verbatim>\<open>gadget_header\<close>. Each field has the type its format code
  gives it: \<^verbatim>\<open>'I'\<close> an unsigned count, \<^verbatim>\<open>'i'\<close> an int, \<^verbatim>\<open>'d'\<close> the bits of a
  double.\<close>

record gadget_header =
  npart :: "nat list"
  mass :: "64 word list"
  time :: "64 word"
  redshift :: "64 word"
  flag_sfr :: int
  flag_feedback :: int
  npartTotal :: "nat list"
  flag_cooling :: int
  num_files :: int
  BoxSize :: "64 word"
  Omega0 :: "64 word"
  OmegaLambda :: "64 word"
  HubbleParam :: "64 word"
  flag_age :: int
  flag_metals :: int
  NallHW :: "nat list"
  flag_entr_ics :: int

text \<open>The typed reading of an unpacked value. The format string fixes which kind of
  value each position of the unpacked list holds (lemma \<open>make_header_unpack\<close> below),
  and lines 65 to 67 write ints into int positions, so the second equation of each
  function is never used on a header.\<close>

fun py_int :: "hval \<Rightarrow> int" where
  "py_int (HInt n) = n"
| "py_int (HFloat w) = 0"

fun py_float :: "hval \<Rightarrow> 64 word" where
  "py_float (HFloat w) = w"
| "py_float (HInt n) = 0"

definition py_uint :: "hval \<Rightarrow> nat" where
  "py_uint v = nat (py_int v)"

text \<open>\<^verbatim>\<open>h[a:b]\<close>\<close>

definition slice :: "'a list \<Rightarrow> nat \<Rightarrow> nat \<Rightarrow> 'a list" where
  "slice xs a b = take (b - a) (drop a xs)"

text \<open>
  \<^verbatim>\<open>gadget_header._make((h[0:6],) + (h[6:12],) + h[12:16] + (h[16:22],) + h[22:30] +
  (h[30:36],) + h[36:])\<close>: the 17 fields, in the namedtuple's order.
\<close>

definition make_header :: "hval list \<Rightarrow> gadget_header" where
  "make_header h =
     \<lparr> npart = map py_uint (slice h 0 6),
       mass = map py_float (slice h 6 12),
       time = py_float (h ! 12),
       redshift = py_float (h ! 13),
       flag_sfr = py_int (h ! 14),
       flag_feedback = py_int (h ! 15),
       npartTotal = map py_uint (slice h 16 22),
       flag_cooling = py_int (h ! 22),
       num_files = py_int (h ! 23),
       BoxSize = py_float (h ! 24),
       Omega0 = py_float (h ! 25),
       OmegaLambda = py_float (h ! 26),
       HubbleParam = py_float (h ! 27),
       flag_age = py_int (h ! 28),
       flag_metals = py_int (h ! 29),
       NallHW = map py_uint (slice h 30 36),
       flag_entr_ics = py_int (h ! 36) \<rparr>"

text \<open>Truth value of a Python float: false exactly for \<open>+0.0\<close> and \<open>-0.0\<close>.\<close>

definition float_truthy :: "64 word \<Rightarrow> bool" where
  "float_truthy w = (w AND 0x7FFFFFFFFFFFFFFF \<noteq> 0)"

subsection \<open>numpy arrays\<close>

datatype dtype = Float32 | Float64 | UInt32 | UInt64

fun itemsize :: "dtype \<Rightarrow> nat" where
  "itemsize Float32 = 4"
| "itemsize Float64 = 8"
| "itemsize UInt32 = 4"
| "itemsize UInt64 = 8"

record ndarray =
  nd_dtype :: dtype
  nd_data :: "byte list"
  nd_shape :: "nat list"

text \<open>Number of elements of an array.\<close>

definition nd_size :: "ndarray \<Rightarrow> nat" where
  "nd_size a = length (nd_data a) div itemsize (nd_dtype a)"

text \<open>\<^verbatim>\<open>np.array([], fmt)\<close>\<close>

definition np_empty :: "dtype \<Rightarrow> ndarray" where
  "np_empty fmt = \<lparr>nd_dtype = fmt, nd_data = [], nd_shape = [0]\<rparr>"

text \<open>\<^verbatim>\<open>np.frombuffer(bytes, fmt)\<close>: a flat array over the whole buffer; numpy raises
  when the buffer size is not a multiple of the element size.\<close>

definition np_frombuffer :: "byte list \<Rightarrow> dtype \<Rightarrow> error + ndarray" where
  "np_frombuffer bs fmt =
     (if length bs mod itemsize fmt = 0
      then Inr \<lparr>nd_dtype = fmt, nd_data = bs, nd_shape = [length bs div itemsize fmt]\<rparr>
      else Inl NumpyValueError)"

text \<open>\<^verbatim>\<open>data.shape = (n, c)\<close>: numpy raises unless \<open>n * c\<close> is the array's size.\<close>

definition set_shape :: "ndarray \<Rightarrow> nat \<Rightarrow> nat \<Rightarrow> error + ndarray" where
  "set_shape a n c =
     (if n * c = nd_size a then Inr (a\<lparr>nd_shape := [n, c]\<rparr>) else Inl NumpyValueError)"

subsection \<open>The block loop\<close>

datatype pyval = PHeader gadget_header | PArray ndarray

datatype loop_ctl = Break | Continue

definition py_any :: "bool list \<Rightarrow> bool" where
  "py_any bs = list_ex (\<lambda>b. b) bs"

text \<open>Lines 86 to 100: the geometry of block \<open>i\<close> (0 position, 1 velocity,
  2 identifier, 3 mass).\<close>

definition block_fmt :: "nat \<Rightarrow> dtype" where
  "block_fmt i = (if i < 2 then Float32 else if i = 2 then UInt32 else Float32)"

definition block_fmt_64 :: "nat \<Rightarrow> dtype" where
  "block_fmt_64 i = (if i < 2 then Float64 else if i = 2 then UInt64 else Float64)"

definition block_item_per_part :: "nat \<Rightarrow> nat" where
  "block_item_per_part i = (if i < 2 then 3 else 1)"

definition block_npart :: "gadget_header \<Rightarrow> nat list \<Rightarrow> nat \<Rightarrow> nat list" where
  "block_npart header mass_npart i =
     (if i < 2 then npart header else if i = 2 then npart header
      else if i = 3 then mass_npart else npart header)"

text \<open>Lines 104 to 108: the element type, from the declared length \<open>size_check\<close>.\<close>

definition resolve_fmt :: "nat \<Rightarrow> nat \<Rightarrow> dtype \<Rightarrow> dtype \<Rightarrow> error + dtype" where
  "resolve_fmt size_check block_item_size fmt fmt_64 =
     (let fmt = (if size_check \<noteq> block_item_size * itemsize fmt then fmt_64 else fmt)
      in if size_check \<noteq> block_item_size * itemsize fmt
         then Inl (ValueError ''Invalid block size in file!'')
         else Inr fmt)"

text \<open>Lines 113 to 126: a requested block is read; \<open>later\<close> is
  \<^verbatim>\<open>any(blocks_to_read[i+1:])\<close>. \<^verbatim>\<open>npart[single_type]\<close> raises IndexError on a
  tuple that is too short; the header's tuples have 6 entries and the selector is at
  most 5, so the call itself never meets it.\<close>

definition read_block ::
  "nat list \<Rightarrow> nat \<Rightarrow> dtype \<Rightarrow> int \<Rightarrow> bool \<Rightarrow> pyval list \<Rightarrow> bstream \<Rightarrow>
   error + (loop_ctl \<times> pyval list \<times> bstream)" where
  "read_block nparts item_per_part fmt single_type later ret s =
     (let size_per_part = item_per_part * itemsize fmt
      in if single_type > -1 \<and> \<not> nat single_type < length nparts then Inl IndexError
         else
           let s1 = (if single_type > -1
                     then bseek (sum_list (take (nat single_type) nparts) * size_per_part) s
                     else s);
               npart_this = (if single_type > -1 then nparts ! nat single_type
                             else sum_list nparts);
               (bytes, s2) = bread (npart_this * size_per_part) s1
           in case np_frombuffer bytes fmt of
                Inl e \<Rightarrow> Inl e
              | Inr data0 \<Rightarrow>
                 (case (if item_per_part > 1 then set_shape data0 npart_this item_per_part
                        else Inr data0) of
                    Inl e \<Rightarrow> Inl e
                  | Inr data \<Rightarrow>
                     if \<not> later then Inr (Break, ret @ [PArray data], s2)
                     else
                       let s3 = (if single_type > -1
                                 then bseek (sum_list (drop (nat (single_type + 1)) nparts)
                                               * size_per_part) s2
                                 else s2)
                       in Inr (Continue, ret @ [PArray data], bseek 4 s3)))"

text \<open>Lines 86 to 127: the body of the loop, for index \<open>i\<close> and flag \<open>b\<close>.\<close>

definition process_block ::
  "gadget_header \<Rightarrow> nat list \<Rightarrow> int \<Rightarrow> bool list \<Rightarrow> nat \<Rightarrow> bool \<Rightarrow> pyval list \<Rightarrow> bstream \<Rightarrow>
   error + (loop_ctl \<times> pyval list \<times> bstream)" where
  "process_block header mass_npart single_type blocks_to_read i b ret s =
     (if i = 3 \<and> sum_list mass_npart = 0
      then Inr (Break, ret @ [PArray (np_empty (block_fmt i))], s)
      else
        let nparts = block_npart header mass_npart i;
            item_per_part = block_item_per_part i;
            (bytes, s1) = bread 4 s
        in case unpack_uint bytes of
             Inl e \<Rightarrow> Inl e
           | Inr size_check \<Rightarrow>
              (case resolve_fmt size_check (item_per_part * sum_list nparts)
                      (block_fmt i) (block_fmt_64 i) of
                 Inl e \<Rightarrow> Inl e
               | Inr fmt \<Rightarrow>
                  if \<not> b
                  then Inr (Continue, ret,
                            bseek 4 (bseek (sum_list nparts * (item_per_part * itemsize fmt)) s1))
                  else read_block nparts item_per_part fmt single_type
                         (py_any (drop (i + 1) blocks_to_read)) ret s1))"

text \<open>Line 85: \<^verbatim>\<open>for i, b in enumerate(blocks_to_read)\<close>, then line 129.\<close>

fun block_loop ::
  "gadget_header \<Rightarrow> nat list \<Rightarrow> int \<Rightarrow> bool list \<Rightarrow> (nat \<times> bool) list \<Rightarrow> pyval list \<Rightarrow>
   bstream \<Rightarrow> error + (pyval list \<times> bstream)" where
  "block_loop header mass_npart single_type blocks_to_read [] ret s = Inr (ret, s)"
| "block_loop header mass_npart single_type blocks_to_read ((i, b) # rest) ret s =
     (case process_block header mass_npart single_type blocks_to_read i b ret s of
        Inl e \<Rightarrow> Inl e
      | Inr (Break, ret', s') \<Rightarrow> Inr (ret', s')
      | Inr (Continue, ret', s') \<Rightarrow>
          block_loop header mass_npart single_type blocks_to_read rest ret' s')"

subsection \<open>read\_gadget\_snapshot\<close>

text \<open>The value returned: the header itself (line 76) or \<^verbatim>\<open>tuple(ret)\<close> (line 129).\<close>

datatype retval = RetHeader gadget_header | RetTuple "pyval list"

text \<open>Lines 64 to 68: the l-gadget remapping of the unpacked list.\<close>

definition lgadget_fix :: "hval list \<Rightarrow> hval list" where
  "lgadget_fix h =
     (let h1 = h[30 := HInt 0];
          h2 = h1[31 := h1 ! 18];
          h3 = h2[18 := HInt 0]
      in h3)"

text \<open>Line 81: \<^verbatim>\<open>[0 if m else n for m, n in zip(header.mass, header.npart)]\<close>\<close>

definition mass_npart_of :: "gadget_header \<Rightarrow> nat list" where
  "mass_npart_of header =
     map (\<lambda>(m, n). if float_truthy m then 0 else n) (zip (mass header) (npart header))"

text \<open>Lines 61 to 72: the header is unpacked; the stream stays after its last field.\<close>

definition read_header :: "bstream \<Rightarrow> bool \<Rightarrow> error + (gadget_header \<times> bstream)" where
  "read_header bstream lgadget =
     (let s1 = bseek 4 bstream;
          (bytes, s2) = bread (calcsize gadget_header_fmt) s1
      in case struct_unpack gadget_header_fmt bytes of
           Inl e \<Rightarrow> Inl e
         | Inr h0 \<Rightarrow>
            (let h = (if lgadget then lgadget_fix h0 else h0)
             in Inr (make_header h, s2)))"

text \<open>Lines 77 to 129: the blocks, once at least one of them is requested.\<close>

definition read_blocks ::
  "gadget_header \<Rightarrow> int \<Rightarrow> bool list \<Rightarrow> bstream \<Rightarrow> error + (retval \<times> bstream)" where
  "read_blocks header single_type blocks_to_read s2 =
     (let ret = [PHeader header];
          s3 = bseek (256 - calcsize gadget_header_fmt) s2;
          s4 = bseek 4 s3;
          mass_npart = mass_npart_of header;
          single_type = (if single_type \<notin> set [0..5] then -1 else single_type)
      in case block_loop header mass_npart single_type blocks_to_read
                (enumerate 0 blocks_to_read) ret s4 of
           Inl e \<Rightarrow> Inl e
         | Inr (ret', s') \<Rightarrow> Inr (RetTuple ret', s'))"

definition read_gadget_snapshot ::
  "bstream \<Rightarrow> bool \<Rightarrow> bool \<Rightarrow> bool \<Rightarrow> bool \<Rightarrow> int \<Rightarrow> bool \<Rightarrow> error + (retval \<times> bstream)" where
  "read_gadget_snapshot bstream read_pos read_vel read_id read_mass single_type lgadget =
     (let blocks_to_read = [read_pos, read_vel, read_id, read_mass]
      in case read_header bstream lgadget of
           Inl e \<Rightarrow> Inl e
         | Inr (header, s2) \<Rightarrow>
            (let single_type = (if lgadget then 1 else single_type)
             in if \<not> py_any blocks_to_read then Inr (RetHeader header, s2)
                else read_blocks header single_type blocks_to_read s2))"

subsection \<open>The header fields after the l-gadget remapping\<close>

text \<open>What lines 65 to 67 do to the fields of the header: index 30 is \<open>NallHW[0]\<close>,
  index 31 is \<open>NallHW[1]\<close> and index 18 is \<open>npartTotal[2]\<close>.\<close>

definition lgadget_header :: "gadget_header \<Rightarrow> gadget_header" where
  "lgadget_header H =
     H\<lparr>NallHW := (NallHW H)[0 := 0, 1 := npartTotal H ! 2],
       npartTotal := (npartTotal H)[2 := 0]\<rparr>"

text \<open>A function applied to the header of a returned value.\<close>

fun map_ret_header :: "(gadget_header \<Rightarrow> gadget_header) \<Rightarrow> retval \<Rightarrow> retval" where
  "map_ret_header f (RetHeader h) = RetHeader (f h)"
| "map_ret_header f (RetTuple (PHeader h # blocks)) = RetTuple (PHeader (f h) # blocks)"
| "map_ret_header f (RetTuple blocks) = RetTuple blocks"

subsection \<open>Example snapshots\<close>

text \<open>The 196 bytes of a header: counts \<open>(5, 7, 3, 0, 0, 0)\<close>, every mass \<open>1.0\<close>,
  total counts \<open>(5, 7, 3, 0, 0, 0)\<close>, \<open>flag_cooling = 1\<close>, \<open>num_files = 1\<close>,
  \<open>flag_entr_ics = 1\<close>, everything else zero.\<close>

definition example_header_bytes :: "byte list" where
  "example_header_bytes =
     [5,0,0,0, 7,0,0,0, 3,0,0,0] @ replicate 12 0 @
     [0,0,0,0,0,0,240,63, 0,0,0,0,0,0,240,63, 0,0,0,0,0,0,240,63,
      0,0,0,0,0,0,240,63, 0,0,0,0,0,0,240,63, 0,0,0,0,0,0,240,63] @
     replicate 24 0 @
     [5,0,0,0, 7,0,0,0, 3,0,0,0] @ replicate 12 0 @
     [1,0,0,0] @ [1,0,0,0] @ replicate 32 0 @ replicate 8 0 @ replicate 24 0 @ [1,0,0,0]"

text \<open>The header record: marker 256, the fields, 60 bytes of padding, marker 256.\<close>

definition example_header_record :: "byte list" where
  "example_header_record = [0,1,0,0] @ example_header_bytes @ replicate 60 0 @ [0,1,0,0]"

definition example_header :: gadget_header where
  "example_header =
     \<lparr> npart = [5, 7, 3, 0, 0, 0],
       mass = [0x3FF0000000000000, 0x3FF0000000000000, 0x3FF0000000000000,
               0x3FF0000000000000, 0x3FF0000000000000, 0x3FF0000000000000],
       time = 0, redshift = 0, flag_sfr = 0, flag_feedback = 0,
       npartTotal = [5, 7, 3, 0, 0, 0], flag_cooling = 1, num_files = 1,
       BoxSize = 0, Omega0 = 0, OmegaLambda = 0, HubbleParam = 0,
       flag_age = 0, flag_metals = 0, NallHW = [0, 0, 0, 0, 0, 0], flag_entr_ics = 1 \<rparr>"

text \<open>Position and velocity records of 15 float32 triples (180 bytes), an identifier
  record of 15 uint32 (60 bytes); no mass record, since every type has a fixed mass.\<close>

definition example_blocks :: "byte list" where
  "example_blocks =
     [180,0,0,0] @ replicate 180 0 @ [180,0,0,0] @
     [180,0,0,0] @ replicate 180 0 @ [180,0,0,0] @
     [60,0,0,0] @ replicate 60 0 @ [60,0,0,0]"

definition example_snapshot :: bstream where
  "example_snapshot = \<lparr>buf = example_header_record @ example_blocks, pos = 0\<rparr>"

text \<open>The same file cut 4 bytes before the end of the identifier payload.\<close>

definition truncated_blocks :: "byte list" where
  "truncated_blocks =
     [180,0,0,0] @ replicate 180 0 @ [180,0,0,0] @
     [180,0,0,0] @ replicate 180 0 @ [180,0,0,0] @
     [60,0,0,0] @ replicate 56 0"

definition truncated_snapshot :: bstream where
  "truncated_snapshot = \<lparr>buf = example_header_record @ truncated_blocks, pos = 0\<rparr>"

text \<open>Files whose position record declares 5 bytes, and whose identifier record
  declares 7 bytes.\<close>

definition bad_position_snapshot :: bstream where
  "bad_position_snapshot = \<lparr>buf = example_header_record @ [5,0,0,0], pos = 0\<rparr>"

definition bad_identifier_snapshot :: bstream where
  "bad_identifier_snapshot =
     \<lparr>buf = example_header_record @
        ([180,0,0,0] @ replicate 180 0 @ [180,0,0,0] @
         [180,0,0,0] @ replicate 180 0 @ [180,0,0,0] @ [7,0,0,0]), pos = 0\<rparr>"


subsection \<open>A stream cut at an offset\<close>


section \<open>Basic facts\<close>

subsection \<open>The header format\<close>

lemma gadget_header_fmt_list:
  "gadget_header_fmt =
     [FmtI, FmtI, FmtI, FmtI, FmtI, FmtI, Fmtd, Fmtd, Fmtd, Fmtd, Fmtd, Fmtd,
      Fmtd, Fmtd, Fmti, Fmti, FmtI, FmtI, FmtI, FmtI, FmtI, FmtI,
      Fmti, Fmti, Fmtd, Fmtd, Fmtd, Fmtd, Fmti, Fmti,
      FmtI, FmtI, FmtI, FmtI, FmtI, FmtI, Fmti]"
  unfolding gadget_header_fmt_def by (simp add: numeral_eq_Suc)

lemma calcsize_hdr: "calcsize gadget_header_fmt = 196"
  unfolding gadget_header_fmt_list calcsize_def by (simp add: align_def)

lemma length_unpack_from: "length (unpack_from off fmt bs) = length fmt"
  by (induction fmt arbitrary: off) (simp_all add: Let_def)

lemma align_mod: "0 < a \<Longrightarrow> off mod a = 0 \<Longrightarrow> align off a = off"
proof -
  assume a: "0 < a" and m: "off mod a = 0"
  then obtain k where k: "off = a * k" by (auto simp: mod_eq_0_iff_dvd)
  have e: "off + a - 1 = a - 1 + k * a" using a k by (simp add: mult.commute)
  have "(a - 1 + k * a) div a = k + (a - 1) div a"
    by (rule div_mult_self1) (use a in simp)
  moreover have "(a - 1) div a = 0" using a by simp
  ultimately have "(off + a - 1) div a = k" using e by simp
  then show ?thesis by (simp add: align_def k)
qed

lemma unpack_from_aligned:
  "off mod code_size c = 0 \<Longrightarrow>
   unpack_from off (c # cs) bs =
     decode c (take (code_size c) (drop off bs)) # unpack_from (off + code_size c) cs bs"
  by (cases c) (simp_all add: align_mod Let_def del: decode.simps)

lemma unpack_header_layout:
  "unpack_from 0 gadget_header_fmt bs =
     [decode FmtI (take 4 (drop 0 bs)),
      decode FmtI (take 4 (drop 4 bs)),
      decode FmtI (take 4 (drop 8 bs)),
      decode FmtI (take 4 (drop 12 bs)),
      decode FmtI (take 4 (drop 16 bs)),
      decode FmtI (take 4 (drop 20 bs)),
      decode Fmtd (take 8 (drop 24 bs)),
      decode Fmtd (take 8 (drop 32 bs)),
      decode Fmtd (take 8 (drop 40 bs)),
      decode Fmtd (take 8 (drop 48 bs)),
      decode Fmtd (take 8 (drop 56 bs)),
      decode Fmtd (take 8 (drop 64 bs)),
      decode Fmtd (take 8 (drop 72 bs)),
      decode Fmtd (take 8 (drop 80 bs)),
      decode Fmti (take 4 (drop 88 bs)),
      decode Fmti (take 4 (drop 92 bs)),
      decode FmtI (take 4 (drop 96 bs)),
      decode FmtI (take 4 (drop 100 bs)),
      decode FmtI (take 4 (drop 104 bs)),
      decode FmtI (take 4 (drop 108 bs)),
      decode FmtI (take 4 (drop 112 bs)),
      decode FmtI (take 4 (drop 116 bs)),
      decode Fmti (take 4 (drop 120 bs)),
      decode Fmti (take 4 (drop 124 bs)),
      decode Fmtd (take 8 (drop 128 bs)),
      decode Fmtd (take 8 (drop 136 bs)),
      decode Fmtd (take 8 (drop 144 bs)),
      decode Fmtd (take 8 (drop 152 bs)),
      decode Fmti (take 4 (drop 160 bs)),
      decode Fmti (take 4 (drop 164 bs)),
      decode FmtI (take 4 (drop 168 bs)),
      decode FmtI (take 4 (drop 172 bs)),
      decode FmtI (take 4 (drop 176 bs)),
      decode FmtI (take 4 (drop 180 bs)),
      decode FmtI (take 4 (drop 184 bs)),
      decode FmtI (take 4 (drop 188 bs)),
      decode Fmti (take 4 (drop 192 bs))]"
  unfolding gadget_header_fmt_list
  by (simp add: unpack_from_aligned del: decode.simps unpack_from.simps(2))

lemma make_header_unpack:
  "make_header (unpack_from 0 gadget_header_fmt bs) =
     \<lparr> npart = [py_uint (decode FmtI (take 4 (drop 0 bs))),
          py_uint (decode FmtI (take 4 (drop 4 bs))),
          py_uint (decode FmtI (take 4 (drop 8 bs))),
          py_uint (decode FmtI (take 4 (drop 12 bs))),
          py_uint (decode FmtI (take 4 (drop 16 bs))),
          py_uint (decode FmtI (take 4 (drop 20 bs)))],
       mass = [py_float (decode Fmtd (take 8 (drop 24 bs))),
          py_float (decode Fmtd (take 8 (drop 32 bs))),
          py_float (decode Fmtd (take 8 (drop 40 bs))),
          py_float (decode Fmtd (take 8 (drop 48 bs))),
          py_float (decode Fmtd (take 8 (drop 56 bs))),
          py_float (decode Fmtd (take 8 (drop 64 bs)))],
       time = py_float (decode Fmtd (take 8 (drop 72 bs))),
       redshift = py_float (decode Fmtd (take 8 (drop 80 bs))),
       flag_sfr = py_int (decode Fmti (take 4 (drop 88 bs))),
       flag_feedback = py_int (decode Fmti (take 4 (drop 92 bs))),
       npartTotal = [py_uint (decode FmtI (take 4 (drop 96 bs))),
          py_uint (decode FmtI (take 4 (drop 100 bs))),
          py_uint (decode FmtI (take 4 (drop 104 bs))),
          py_uint (decode FmtI (take 4 (drop 108 bs))),
          py_uint (decode FmtI (take 4 (drop 112 bs))),
          py_uint (decode FmtI (take 4 (drop 116 bs)))],
       flag_cooling = py_int (decode Fmti (take 4 (drop 120 bs))),
       num_files = py_int (decode Fmti (take 4 (drop 124 bs))),
       BoxSize = py_float (decode Fmtd (take 8 (drop 128 bs))),
       Omega0 = py_float (decode Fmtd (take 8 (drop 136 bs))),
       OmegaLambda = py_float (decode Fmtd (take 8 (drop 144 bs))),
       HubbleParam = py_float (decode Fmtd (take 8 (drop 152 bs))),
       flag_age = py_int (decode Fmti (take 4 (drop 160 bs))),
       flag_metals = py_int (decode Fmti (take 4 (drop 164 bs))),
       NallHW = [py_uint (decode FmtI (take 4 (drop 168 bs))),
          py_uint (decode FmtI (take 4 (drop 172 bs))),
          py_uint (decode FmtI (take 4 (drop 176 bs))),
          py_uint (decode FmtI (take 4 (drop 180 bs))),
          py_uint (decode FmtI (take 4 (drop 184 bs))),
          py_uint (decode FmtI (take 4 (drop 188 bs)))],
       flag_entr_ics = py_int (decode Fmti (take 4 (drop 192 bs))) \<rparr>"
  unfolding unpack_header_layout
  by (simp add: make_header_def slice_def del: decode.simps)


lemma le_nat_replicate_0: "le_nat (replicate n 0) = 0"
  by (induction n) simp_all

subsection \<open>The stream\<close>

lemma read_header_eq:
  "read_header s lg =
     (if pos s + 200 \<le> length (buf s)
      then Inr (make_header
                 (if lg then lgadget_fix (unpack_from 0 gadget_header_fmt
                                            (take 196 (drop (pos s + 4) (buf s))))
                  else unpack_from 0 gadget_header_fmt (take 196 (drop (pos s + 4) (buf s)))),
                s\<lparr>pos := pos s + 200\<rparr>)
      else Inl StructError)"
  by (auto simp: read_header_def bseek_def bread_def struct_unpack_def calcsize_hdr Let_def
        min_def)

lemma bread_4_ok:
  assumes "unpack_uint (fst (bread 4 s)) = Inr L"
  shows "bread 4 s = (take 4 (drop (pos s) (buf s)), s\<lparr>pos := pos s + 4\<rparr>)"
    and "L = le_nat (take 4 (drop (pos s) (buf s)))"
    and "pos s + 4 \<le> length (buf s)"
  using assms by (auto simp: unpack_uint_def bread_def Let_def split: if_splits)


subsection \<open>One block\<close>

lemma resolve_fmt_cases:
  "resolve_fmt L (c * N) (block_fmt i) (block_fmt_64 i) =
     (if L = N * c * 4 then Inr (block_fmt i)
      else if L = N * c * 8 then Inr (block_fmt_64 i)
      else Inl (ValueError ''Invalid block size in file!''))"
  by (simp add: resolve_fmt_def block_fmt_def block_fmt_64_def Let_def mult.commute
        mult.left_commute)

lemma process_block_eq:
  assumes "\<not> (i = 3 \<and> sum_list mn = 0)" and "unpack_uint (fst (bread 4 s)) = Inr L"
  shows "process_block H mn st btr i b ret s =
     (case resolve_fmt L (block_item_per_part i * sum_list (block_npart H mn i))
             (block_fmt i) (block_fmt_64 i) of
        Inl e \<Rightarrow> Inl e
      | Inr fmt \<Rightarrow>
         if \<not> b
         then Inr (Continue, ret,
                s\<lparr>pos := pos s + 4 +
                   sum_list (block_npart H mn i) * (block_item_per_part i * itemsize fmt) + 4\<rparr>)
         else read_block (block_npart H mn i) (block_item_per_part i) fmt st
                (py_any (drop (i + 1) btr)) ret (s\<lparr>pos := pos s + 4\<rparr>))"
proof -
  have b4: "bread 4 s = (fst (bread 4 s), s\<lparr>pos := pos s + 4\<rparr>)"
    using bread_4_ok(1)[OF assms(2)] by simp
  have cond: "(i = 3 \<and> sum_list mn = 0) = False"
    using assms(1) by blast
  show ?thesis
    unfolding process_block_def
    apply (simp only: cond if_False)
    apply (subst b4)
    apply (simp add: assms(2) Let_def bseek_def add.assoc split: sum.splits)
    done
qed

lemma read_block_appends:
  "read_block nparts c fmt st later ret s = Inr (ctl, ret', s') \<Longrightarrow>
   \<exists>a. ret' = ret @ [PArray a] \<and> nd_dtype a = fmt"
  unfolding read_block_def
  by (auto simp: np_frombuffer_def set_shape_def Let_def
      split: if_splits sum.splits prod.splits)

subsection \<open>The example snapshots\<close>

lemma length_example_header_bytes: "length example_header_bytes = 196"
  by (simp add: example_header_bytes_def)

lemma length_example_header_record: "length example_header_record = 264"
  by (simp add: example_header_record_def length_example_header_bytes)

lemma header_bytes_of_record:
  "take 196 (drop 4 example_header_record) = example_header_bytes"
  by (simp add: example_header_record_def length_example_header_bytes)

lemma unpack_example:
  "make_header (unpack_from 0 gadget_header_fmt example_header_bytes) = example_header"
  unfolding make_header_unpack
  by (simp add: example_header_bytes_def example_header_def py_uint_def le_nat_replicate_0
        Let_def)

lemma read_header_example:
  "read_header \<lparr>buf = example_header_record @ rest, pos = 0\<rparr> False =
     Inr (example_header, \<lparr>buf = example_header_record @ rest, pos = 200\<rparr>)"
  by (simp add: read_header_eq header_bytes_of_record unpack_example
        length_example_header_record)

lemma mass_npart_example: "mass_npart_of example_header = [0, 0, 0, 0, 0, 0]"
  by (simp add: mass_npart_of_def example_header_def float_truthy_def)

subsection \<open>Evaluating the examples, and the header of the result\<close>

lemma list_update_Cons_numeral:
  "(x # xs)[numeral n := y] = x # xs[pred_numeral n := y]"
  by (simp add: numeral_eq_Suc)

lemma make_header_lgadget:
  "make_header (lgadget_fix (unpack_from 0 gadget_header_fmt bs)) =
     lgadget_header (make_header (unpack_from 0 gadget_header_fmt bs))"
  unfolding unpack_header_layout
  by (simp add: lgadget_fix_def make_header_def slice_def lgadget_header_def Let_def
        py_uint_def list_update_Cons_numeral del: decode.simps)

lemma read_header_lgadget:
  "read_header s True = map_sum id (map_prod lgadget_header id) (read_header s False)"
  by (simp add: read_header_eq make_header_lgadget)

lemma enumerate_4: "enumerate 0 [a, b, c, d] = [(0, a), (1, b), (2, c), (3, d)]"
  by (simp add: eval_nat_numeral)

lemma read_gadget_snapshot_example:
  "py_any [rp, rv, ri, rm] \<Longrightarrow>
   read_gadget_snapshot \<lparr>buf = example_header_record @ rest, pos = 0\<rparr> rp rv ri rm st False =
     (case block_loop example_header [0, 0, 0, 0, 0, 0] (if st \<notin> set [0..5] then -1 else st)
             [rp, rv, ri, rm] [(0, rp), (1, rv), (2, ri), (3, rm)] [PHeader example_header]
             \<lparr>buf = example_header_record @ rest, pos = 264\<rparr> of
        Inl e \<Rightarrow> Inl e
      | Inr (ret', s') \<Rightarrow> Inr (RetTuple ret', s'))"
  by (simp add: read_gadget_snapshot_def read_header_example read_blocks_def Let_def
        mass_npart_example calcsize_hdr bseek_def enumerate_4
        del: block_loop.simps enumerate_simps)

lemmas block_eval =
  process_block_def read_block_def bread_def bseek_def unpack_uint_def resolve_fmt_def
  block_npart_def block_item_per_part_def block_fmt_def block_fmt_64_def
  np_frombuffer_def set_shape_def nd_size_def np_empty_def py_any_def Let_def
  length_example_header_record example_header_def

lemma process_block_header:
  "npart H1 = npart H2 \<Longrightarrow>
   process_block H1 mn st btr i b ret s = process_block H2 mn st btr i b ret s"
proof -
  assume "npart H1 = npart H2"
  then have "block_npart H1 mn i = block_npart H2 mn i"
    by (simp add: block_npart_def)
  then show ?thesis by (simp only: process_block_def)
qed

lemma block_loop_header:
  "npart H1 = npart H2 \<Longrightarrow>
   block_loop H1 mn st btr xs ret s = block_loop H2 mn st btr xs ret s"
proof (induction xs arbitrary: ret s)
  case Nil
  show ?case by simp
next
  case (Cons x xs)
  obtain i b where x: "x = (i, b)" by (cases x)
  show ?case
    unfolding x block_loop.simps process_block_header[OF Cons.prems, of mn st btr i b ret s]
    using Cons.IH[OF Cons.prems]
    by (simp split: sum.splits prod.splits loop_ctl.splits)
qed

lemma read_block_ret:
  "read_block nparts c fmt st later (r0 # ret) s =
     map_sum id (\<lambda>(ctl, r, s'). (ctl, r0 # r, s')) (read_block nparts c fmt st later ret s)"
  unfolding read_block_def
  by (simp add: Let_def split: sum.splits prod.splits)

lemma process_block_ret:
  "process_block H mn st btr i b (r0 # ret) s =
     map_sum id (\<lambda>(ctl, r, s'). (ctl, r0 # r, s')) (process_block H mn st btr i b ret s)"
proof (cases "i = 3 \<and> sum_list mn = 0")
  case True
  show ?thesis unfolding process_block_def if_P[OF True] by simp
next
  case False
  show ?thesis unfolding process_block_def if_not_P[OF False]
    by (simp add: Let_def read_block_ret split: sum.splits prod.splits)
qed

lemma block_loop_ret:
  "block_loop H mn st btr xs (r0 # ret) s =
     map_sum id (\<lambda>(r, s'). (r0 # r, s')) (block_loop H mn st btr xs ret s)"
proof (induction xs arbitrary: ret s)
  case Nil
  show ?case by simp
next
  case (Cons x xs)
  obtain i b where x: "x = (i, b)" by (cases x)
  show ?case
    unfolding x block_loop.simps process_block_ret
    by (cases "process_block H mn st btr i b ret s")
       (auto simp: Cons.IH split: loop_ctl.splits)
qed

lemma read_blocks_eq:
  "read_blocks H st btr s =
     (case block_loop H (mass_npart_of H) (if st \<notin> set [0..5] then -1 else st) btr
             (enumerate 0 btr) [] (bseek 4 (bseek (256 - calcsize gadget_header_fmt) s)) of
        Inl e \<Rightarrow> Inl e
      | Inr (r, s') \<Rightarrow> Inr (RetTuple (PHeader H # r), s'))"
proof -
  define res where "res = block_loop H (mass_npart_of H) (if st \<notin> set [0..5] then -1 else st)
     btr (enumerate 0 btr) [] (bseek 4 (bseek (256 - calcsize gadget_header_fmt) s))"
  have "read_blocks H st btr s =
     (case map_sum id (\<lambda>(r, s'). (PHeader H # r, s')) res of
        Inl e \<Rightarrow> Inl e
      | Inr (ret', s') \<Rightarrow> Inr (RetTuple ret', s'))"
    unfolding read_blocks_def Let_def res_def block_loop_ret[of _ _ _ _ _ _ "[]"] ..
  also have "\<dots> = (case res of Inl e \<Rightarrow> Inl e
      | Inr (r, s') \<Rightarrow> Inr (RetTuple (PHeader H # r), s'))"
    by (cases res) auto
  finally show ?thesis unfolding res_def .
qed

lemma read_blocks_lgadget:
  "read_blocks (lgadget_header H) st btr s =
     map_sum id (map_prod (map_ret_header lgadget_header) id) (read_blocks H st btr s)"
proof -
  define res where "res = block_loop H (mass_npart_of H) (if st \<notin> set [0..5] then -1 else st)
     btr (enumerate 0 btr) [] (bseek 4 (bseek (256 - calcsize gadget_header_fmt) s))"
  have n: "npart (lgadget_header H) = npart H" by (simp add: lgadget_header_def)
  have m: "mass_npart_of (lgadget_header H) = mass_npart_of H"
    by (simp add: mass_npart_of_def lgadget_header_def)
  have l: "read_blocks (lgadget_header H) st btr s =
     (case res of Inl e \<Rightarrow> Inl e
      | Inr (r, s') \<Rightarrow> Inr (RetTuple (PHeader (lgadget_header H) # r), s'))"
    unfolding read_blocks_eq m block_loop_header[OF n] res_def ..
  have r: "read_blocks H st btr s =
     (case res of Inl e \<Rightarrow> Inl e | Inr (r, s') \<Rightarrow> Inr (RetTuple (PHeader H # r), s'))"
    unfolding read_blocks_eq res_def ..
  show ?thesis unfolding l r by (cases res) auto
qed

lemma example_pos_only:
  "read_gadget_snapshot example_snapshot True False False False 1 False =
     Inr (RetTuple [PHeader example_header,
            PArray \<lparr>nd_dtype = Float32, nd_data = replicate 84 0, nd_shape = [7, 3]\<rparr>],
          example_snapshot\<lparr>pos := 412\<rparr>)"
  unfolding example_snapshot_def
  by (subst read_gadget_snapshot_example) (simp_all add: block_eval example_blocks_def)

subsection \<open>Reading and skipping a payload\<close>

lemma itemsize_pos: "0 < itemsize fmt"
  by (cases fmt) simp_all

lemma sum_list_split_nth:
  "k < length (xs::nat list) \<Longrightarrow>
   sum_list (take k xs) + xs ! k + sum_list (drop (Suc k) xs) = sum_list xs"
proof -
  assume k: "k < length xs"
  have "xs = take k xs @ xs ! k # drop (Suc k) xs"
    using k by (rule id_take_nth_drop)
  then have "sum_list xs = sum_list (take k xs @ xs ! k # drop (Suc k) xs)" by simp
  then show ?thesis by simp
qed

lemma sum_list_take_Suc:
  "k < length (xs::nat list) \<Longrightarrow> sum_list (take (Suc k) xs) = sum_list (take k xs) + xs ! k"
  by (simp add: take_Suc_conv_app_nth)

lemma bread_full:
  "pos s + n \<le> length (buf s) \<Longrightarrow>
   bread n s = (take n (drop (pos s) (buf s)), s\<lparr>pos := pos s + n\<rparr>)"
  by (simp add: bread_def Let_def min_def)

text \<open>A requested block whose payload the stream holds.\<close>

lemma frombuffer_exact:
  assumes "length bytes = n * (c * itemsize fmt)"
  shows "np_frombuffer bytes fmt =
           Inr \<lparr>nd_dtype = fmt, nd_data = bytes, nd_shape = [n * c]\<rparr>"
proof -
  have m: "length bytes mod itemsize fmt = 0" unfolding assms by simp
  have d: "length bytes div itemsize fmt = n * c"
    unfolding assms using itemsize_pos[of fmt] by (simp add: mult.assoc[symmetric])
  show ?thesis unfolding np_frombuffer_def if_P[OF m] d ..
qed

lemma set_shape_exact:
  assumes "length bytes = n * (c * itemsize fmt)"
  shows "set_shape \<lparr>nd_dtype = fmt, nd_data = bytes, nd_shape = sh\<rparr> n c =
           Inr \<lparr>nd_dtype = fmt, nd_data = bytes, nd_shape = [n, c]\<rparr>"
proof -
  have d: "length bytes div itemsize fmt = n * c"
    unfolding assms using itemsize_pos[of fmt] by (simp add: mult.assoc[symmetric])
  show ?thesis unfolding set_shape_def nd_size_def by (simp add: d)
qed

lemma read_block_all:
  assumes "0 < c" and "pos s + sum_list nparts * (c * itemsize fmt) \<le> length (buf s)"
  shows "read_block nparts c fmt (-1) later ret s =
     Inr (if later then Continue else Break,
          ret @ [PArray \<lparr>nd_dtype = fmt,
                   nd_data = take (sum_list nparts * (c * itemsize fmt)) (drop (pos s) (buf s)),
                   nd_shape = (if 1 < c then [sum_list nparts, c] else [sum_list nparts])\<rparr>],
          s\<lparr>pos := (if later then pos s + sum_list nparts * (c * itemsize fmt) + 4
                    else pos s + sum_list nparts * (c * itemsize fmt))\<rparr>)"
proof -
  define n where "n = sum_list nparts"
  define bytes where "bytes = take (n * (c * itemsize fmt)) (drop (pos s) (buf s))"
  have len: "length bytes = n * (c * itemsize fmt)"
    unfolding bytes_def n_def using assms(2) by simp
  have br: "bread (n * (c * itemsize fmt)) s = (bytes, s\<lparr>pos := pos s + n * (c * itemsize fmt)\<rparr>)"
    unfolding bytes_def n_def by (rule bread_full[OF assms(2)])
  have c1: "\<not> 1 < c \<Longrightarrow> c = 1" using assms(1) by simp
  note fb = frombuffer_exact[OF len] and ss = set_shape_exact[OF len]
  have "read_block nparts c fmt (-1) later ret s =
     Inr (if later then Continue else Break,
          ret @ [PArray \<lparr>nd_dtype = fmt, nd_data = bytes,
                   nd_shape = (if 1 < c then [n, c] else [n])\<rparr>],
          s\<lparr>pos := (if later then pos s + n * (c * itemsize fmt) + 4
                    else pos s + n * (c * itemsize fmt))\<rparr>)"
    unfolding read_block_def Let_def n_def[symmetric]
    by (simp add: br fb ss bseek_def c1)
  then show ?thesis unfolding bytes_def n_def .
qed

lemma read_block_one:
  assumes "0 < c" and "pos s + sum_list nparts * (c * itemsize fmt) \<le> length (buf s)"
    and "0 \<le> t" and "nat t < length nparts"
  shows "read_block nparts c fmt t later ret s =
     Inr (if later then Continue else Break,
          ret @ [PArray \<lparr>nd_dtype = fmt,
                   nd_data = take (nparts ! nat t * (c * itemsize fmt))
                               (drop (pos s + sum_list (take (nat t) nparts) * (c * itemsize fmt))
                                  (buf s)),
                   nd_shape = (if 1 < c then [nparts ! nat t, c] else [nparts ! nat t])\<rparr>],
          s\<lparr>pos := (if later then pos s + sum_list nparts * (c * itemsize fmt) + 4
                    else pos s + sum_list (take (Suc (nat t)) nparts) * (c * itemsize fmt))\<rparr>)"
proof -
  define k where "k = nat t"
  define w where "w = c * itemsize fmt"
  define pre where "pre = sum_list (take k nparts)"
  define n where "n = nparts ! k"
  define post where "post = sum_list (drop (Suc k) nparts)"
  have k: "k < length nparts" using assms(4) by (simp add: k_def)
  have tot: "sum_list nparts = pre + n + post"
    unfolding pre_def n_def post_def using sum_list_split_nth[OF k] by simp
  have tk: "sum_list (take (Suc k) nparts) = pre + n"
    unfolding pre_def n_def by (rule sum_list_take_Suc[OF k])
  define s1 where "s1 = s\<lparr>pos := pos s + pre * w\<rparr>"
  define bytes where "bytes = take (n * w) (drop (pos s + pre * w) (buf s))"
  have av: "pos s1 + n * w \<le> length (buf s1)"
    using assms(2) unfolding s1_def w_def[symmetric] tot by (simp add: algebra_simps)
  have len: "length bytes = n * (c * itemsize fmt)"
    unfolding bytes_def using av by (simp add: s1_def w_def)
  have br: "bread (n * w) s1 = (bytes, s\<lparr>pos := pos s + pre * w + n * w\<rparr>)"
    using bread_full[OF av] by (simp add: s1_def bytes_def)
  have c1: "\<not> 1 < c \<Longrightarrow> c = 1" using assms(1) by simp
  have st: "t > -1" "nat (t + 1) = Suc k" using assms(3) by (simp_all add: k_def)
  have nk: "\<not> \<not> k < length nparts" using k by simp
  note fb = frombuffer_exact[OF len] and ss = set_shape_exact[OF len]
  have "read_block nparts c fmt t later ret s =
     Inr (if later then Continue else Break,
          ret @ [PArray \<lparr>nd_dtype = fmt, nd_data = bytes,
                   nd_shape = (if 1 < c then [n, c] else [n])\<rparr>],
          s\<lparr>pos := (if later then pos s + (pre + n + post) * w + 4
                    else pos s + (pre + n) * w)\<rparr>)"
    unfolding read_block_def Let_def
    apply (simp only: st if_True k_def[symmetric] nk simp_thms if_False bseek_def
        w_def[symmetric] pre_def[symmetric] n_def[symmetric] post_def[symmetric]
        s1_def[symmetric])
    apply (simp add: br fb ss c1 w_def[symmetric] algebra_simps)
    done
  from this[unfolded bytes_def n_def pre_def w_def post_def k_def]
  show ?thesis
    unfolding tot[unfolded pre_def n_def post_def k_def] tk[unfolded pre_def n_def k_def] .
qed

lemma block_item_per_part_pos: "0 < block_item_per_part i"
  by (simp add: block_item_per_part_def)

lemma itemsize_block_fmt: "itemsize (block_fmt i) = 4" "itemsize (block_fmt_64 i) = 8"
  by (simp_all add: block_fmt_def block_fmt_64_def)

text \<open>A block whose declared length is one of the two candidates.\<close>

lemma process_block_valid:
  assumes "\<not> (i = 3 \<and> sum_list mn = 0)"
    and "unpack_uint (fst (bread 4 s)) = Inr L"
    and "L = sum_list (block_npart H mn i) * block_item_per_part i * 4 \<or>
         L = sum_list (block_npart H mn i) * block_item_per_part i * 8"
    and "fmt = (if L = sum_list (block_npart H mn i) * block_item_per_part i * 4
                then block_fmt i else block_fmt_64 i)"
  shows "L = sum_list (block_npart H mn i) * (block_item_per_part i * itemsize fmt)"
    and "process_block H mn st btr i b ret s =
       (if \<not> b then Inr (Continue, ret, s\<lparr>pos := pos s + 4 + L + 4\<rparr>)
        else read_block (block_npart H mn i) (block_item_per_part i) fmt st
               (py_any (drop (i + 1) btr)) ret (s\<lparr>pos := pos s + 4\<rparr>))"
proof -
  let ?N = "sum_list (block_npart H mn i)"
  let ?c = "block_item_per_part i"
  note fmt_def = assms(4)
  have rf: "resolve_fmt L (?c * ?N) (block_fmt i) (block_fmt_64 i) = Inr fmt"
  proof (cases "L = ?N * ?c * 4")
    case True
    show ?thesis unfolding resolve_fmt_cases fmt_def if_P[OF True] ..
  next
    case False
    with assms(3) have w: "L = ?N * ?c * 8" by blast
    show ?thesis unfolding resolve_fmt_cases fmt_def if_not_P[OF False] if_P[OF w] ..
  qed
  show sz: "L = ?N * (?c * itemsize fmt)"
  proof (cases "L = ?N * ?c * 4")
    case True
    have "itemsize fmt = 4" unfolding fmt_def if_P[OF True] by (rule itemsize_block_fmt)
    with True show ?thesis by (simp add: mult.assoc)
  next
    case False
    with assms(3) have w: "L = ?N * ?c * 8" by blast
    have "itemsize fmt = 8" unfolding fmt_def if_not_P[OF False] by (rule itemsize_block_fmt)
    with w show ?thesis by (simp add: mult.assoc)
  qed
  show "process_block H mn st btr i b ret s =
       (if \<not> b then Inr (Continue, ret, s\<lparr>pos := pos s + 4 + L + 4\<rparr>)
        else read_block (block_npart H mn i) ?c fmt st
               (py_any (drop (i + 1) btr)) ret (s\<lparr>pos := pos s + 4\<rparr>))"
    unfolding process_block_eq[OF assms(1,2)] rf by (simp add: sz[symmetric])
qed





lemma process_block_invalid:
  assumes "\<not> (i = 3 \<and> sum_list mn = 0)"
    and "unpack_uint (fst (bread 4 s)) = Inr L"
    and "\<not> (L = sum_list (block_npart H mn i) * block_item_per_part i * 4 \<or>
            L = sum_list (block_npart H mn i) * block_item_per_part i * 8)"
  shows "process_block H mn st btr i b ret s = Inl (ValueError ''Invalid block size in file!'')"
proof -
  from assms(3) have n4: "L \<noteq> sum_list (block_npart H mn i) * block_item_per_part i * 4"
    and n8: "L \<noteq> sum_list (block_npart H mn i) * block_item_per_part i * 8" by blast+
  have "resolve_fmt L (block_item_per_part i * sum_list (block_npart H mn i))
          (block_fmt i) (block_fmt_64 i) = Inl (ValueError ''Invalid block size in file!'')"
    unfolding resolve_fmt_cases if_not_P[OF n4] if_not_P[OF n8] ..
  then show ?thesis unfolding process_block_eq[OF assms(1,2)] by simp
qed

lemmas example_eval = block_eval example_blocks_def truncated_blocks_def

lemma example_marker:
  "unpack_uint (fst (bread 4 (example_snapshot\<lparr>pos := 264\<rparr>))) = Inr 180"
  by (simp add: example_snapshot_def bread_def unpack_uint_def example_blocks_def Let_def
        length_example_header_record)

lemma example_geometry:
  "block_npart example_header mn 0 = [5, 7, 3, 0, 0, 0]" "block_item_per_part 0 = 3"
  by (simp_all add: block_npart_def example_header_def block_item_per_part_def)

subsection \<open>The walk over the kinds\<close>













subsection \<open>What a run reads\<close>















subsection \<open>The selector the walk runs with\<close>

text \<open>Lines 68 and 82 to 83 fix the selector before the loop: 1 under
  \<^verbatim>\<open>lgadget\<close>, otherwise the caller's value when it lies in \<open>0..5\<close> and \<open>-1\<close> when it
  does not.\<close>

lemma read_gadget_snapshot_loop:
  "read_gadget_snapshot s rp rv ri rm t lg =
     (case read_header s lg of
        Inl e \<Rightarrow> Inl e
      | Inr (H, s2) \<Rightarrow>
         if \<not> py_any [rp, rv, ri, rm] then Inr (RetHeader H, s2)
         else (case block_loop H (mass_npart_of H)
                      (if lg then 1 else if t \<notin> set [0..5] then -1 else t)
                      [rp, rv, ri, rm] (enumerate 0 [rp, rv, ri, rm]) []
                      (bseek 4 (bseek (256 - calcsize gadget_header_fmt) s2)) of
                 Inl e \<Rightarrow> Inl e
               | Inr (r, s') \<Rightarrow> Inr (RetTuple (PHeader H # r), s')))"
proof (cases "read_header s lg")
  case (Inl e)
  then show ?thesis by (simp add: read_gadget_snapshot_def)
next
  case (Inr hs)
  obtain H s2 where hs: "hs = (H, s2)" by (cases hs)
  have one: "(if (1::int) \<notin> set [0..5] then -1 else 1) = 1" by simp
  show ?thesis
  proof (cases lg)
    case True
    show ?thesis
      unfolding read_gadget_snapshot_def Let_def Inr hs read_blocks_eq
      using True by (simp only: one if_True sum.case prod.case)
  next
    case False
    show ?thesis
      unfolding read_gadget_snapshot_def Let_def Inr hs read_blocks_eq
      using False by (simp only: if_False sum.case prod.case)
  qed
qed

lemma process_block_full:
  assumes "\<not> (i = 3 \<and> sum_list mn = 0)"
    and "unpack_uint (fst (bread 4 s)) = Inr L"
    and "L = sum_list (block_npart H mn i) * block_item_per_part i * 4 \<or>
         L = sum_list (block_npart H mn i) * block_item_per_part i * 8"
    and "pos s + 4 + L \<le> length (buf s)"
  shows "process_block H mn (-1) btr i True ret s =
     Inr (if py_any (drop (i + 1) btr) then Continue else Break,
          ret @ [PArray \<lparr>nd_dtype = (if L = sum_list (block_npart H mn i) *
                                            block_item_per_part i * 4
                                     then block_fmt i else block_fmt_64 i),
                   nd_data = take L (drop (pos s + 4) (buf s)),
                   nd_shape = (if 1 < block_item_per_part i
                               then [sum_list (block_npart H mn i), block_item_per_part i]
                               else [sum_list (block_npart H mn i)])\<rparr>],
          s\<lparr>pos := (if py_any (drop (i + 1) btr) then pos s + 4 + L + 4
                    else pos s + 4 + L)\<rparr>)"
proof -
  let ?np = "block_npart H mn i"
  let ?c = "block_item_per_part i"
  define fmt where "fmt = (if L = sum_list ?np * ?c * 4 then block_fmt i else block_fmt_64 i)"
  define later where "later = py_any (drop (i + 1) btr)"
  define s1 where "s1 = s\<lparr>pos := pos s + 4\<rparr>"
  note sz = process_block_valid(1)[OF assms(1,2,3) fmt_def]
  note pb = process_block_valid(2)[OF assms(1,2,3) fmt_def, of "-1" btr True ret]
  have av: "pos s1 + sum_list ?np * (?c * itemsize fmt) \<le> length (buf s1)"
    using assms(4) unfolding sz[symmetric] s1_def by simp
  note all = read_block_all[OF block_item_per_part_pos av, of later ret]
  have "process_block H mn (-1) btr i True ret s =
          read_block ?np ?c fmt (-1) later ret s1"
    unfolding pb later_def s1_def by simp
  also note all
  finally show ?thesis
    unfolding sz[symmetric] fmt_def[symmetric] later_def[symmetric] s1_def
    by (cases later) (simp_all add: add.assoc)
qed

lemma read_block_no_index_error:
  "read_block nparts c fmt (-1) later ret s \<noteq> Inl IndexError"
  unfolding read_block_def np_frombuffer_def set_shape_def
  by (simp add: Let_def split: sum.splits prod.splits)

lemma process_block_no_index_error:
  "process_block H mn (-1) btr i b ret s \<noteq> Inl IndexError"
  unfolding process_block_def unpack_uint_def resolve_fmt_def
  by (simp add: Let_def read_block_no_index_error split: sum.splits prod.splits)

lemma block_loop_no_index_error:
  "block_loop H mn (-1) btr xs ret s \<noteq> Inl IndexError"
proof (induction xs arbitrary: ret s)
  case Nil
  show ?case by simp
next
  case (Cons x xs)
  obtain i b where x: "x = (i, b)" by (cases x)
  show ?case
    unfolding x block_loop.simps
    using process_block_no_index_error[of H mn btr i b ret s] Cons.IH
    by (auto split: sum.splits prod.splits loop_ctl.splits)
qed

lemma read_header_no_index_error: "read_header s lg \<noteq> Inl IndexError"
  by (simp add: read_header_eq)

lemma read_pos_only_full:
  assumes "\<not> (0 \<le> t \<and> t \<le> 5)"
    and "read_header s False = Inr (H, s2)"
    and "unpack_uint (fst (bread 4 (bseek 4 (bseek (256 - calcsize gadget_header_fmt) s2)))) = Inr L"
    and "L = sum_list (npart H) * 3 * 4 \<or> L = sum_list (npart H) * 3 * 8"
    and "pos s2 + 68 + L \<le> length (buf s2)"
  shows "read_gadget_snapshot s True False False False t False =
     Inr (RetTuple [PHeader H,
            PArray \<lparr>nd_dtype = (if L = sum_list (npart H) * 3 * 4 then Float32 else Float64),
                     nd_data = take L (drop (pos s2 + 68) (buf s2)),
                     nd_shape = [sum_list (npart H), 3]\<rparr>],
          s2\<lparr>pos := pos s2 + 68 + L\<rparr>)"
proof -
  define s4 where "s4 = bseek 4 (bseek (256 - calcsize gadget_header_fmt) s2)"
  have s4: "s4 = s2\<lparr>pos := pos s2 + 64\<rparr>"
    unfolding s4_def by (simp add: bseek_def calcsize_hdr)
  have g: "block_npart H (mass_npart_of H) 0 = npart H" "block_item_per_part 0 = 3"
    "block_fmt 0 = Float32" "block_fmt_64 0 = Float64"
    by (simp_all add: block_npart_def block_item_per_part_def block_fmt_def block_fmt_64_def)
  have h1: "\<not> ((0::nat) = 3 \<and> sum_list (mass_npart_of H) = 0)" by simp
  have h2: "unpack_uint (fst (bread 4 s4)) = Inr L" using assms(3) unfolding s4_def .
  have h3: "L = sum_list (block_npart H (mass_npart_of H) 0) * block_item_per_part 0 * 4 \<or>
            L = sum_list (block_npart H (mass_npart_of H) 0) * block_item_per_part 0 * 8"
    unfolding g by (rule assms(4))
  have h4: "pos s4 + 4 + L \<le> length (buf s4)" using assms(5) unfolding s4 by simp
  have nl: "\<not> py_any (drop (0 + 1) [True, False, False, False])" by (simp add: py_any_def)
  have pb: "process_block H (mass_npart_of H) (-1) [True, False, False, False] 0 True [] s4 =
     Inr (Break,
          [PArray \<lparr>nd_dtype = (if L = sum_list (npart H) * 3 * 4 then Float32 else Float64),
                    nd_data = take L (drop (pos s2 + 68) (buf s2)),
                    nd_shape = [sum_list (npart H), 3]\<rparr>],
          s2\<lparr>pos := pos s2 + 68 + L\<rparr>)"
    unfolding process_block_full[OF h1 h2 h3 h4, of "[True, False, False, False]" "[]"]
      if_not_P[OF nl] g
    by (simp add: s4 add.commute)
  have st: "(if False then 1 else if t \<notin> set [0..5] then -1 else t) = (-1::int)"
    using assms(1) by auto
  have req: "py_any [True, False, False, False] = True" by (simp add: py_any_def)
  have call: "read_gadget_snapshot s True False False False t False =
     (case block_loop H (mass_npart_of H) (-1) [True, False, False, False]
             [(0, True), (1, False), (2, False), (3, False)] [] s4 of
        Inl e \<Rightarrow> Inl e
      | Inr (r, s') \<Rightarrow> Inr (RetTuple (PHeader H # r), s'))"
    unfolding read_gadget_snapshot_loop assms(2) st enumerate_4 s4_def
    by (simp only: req not_True_eq_False if_False sum.case prod.case)
  show ?thesis
    unfolding call block_loop.simps pb
    by (simp only: sum.case prod.case loop_ctl.case append_Nil)
qed

lemma example_lgadget_pos_only:
  "read_gadget_snapshot example_snapshot True False False False t True =
     Inr (RetTuple [PHeader (example_header\<lparr>NallHW := [0, 3, 0, 0, 0, 0],
                                npartTotal := [5, 7, 0, 0, 0, 0]\<rparr>),
            PArray \<lparr>nd_dtype = Float32, nd_data = replicate 84 0, nd_shape = [7, 3]\<rparr>],
          example_snapshot\<lparr>pos := 412\<rparr>)"
proof -
  have req: "py_any [True, False, False, False]" by (simp add: py_any_def)
  have rh: "read_header example_snapshot False =
              Inr (example_header, example_snapshot\<lparr>pos := 200\<rparr>)"
    unfolding example_snapshot_def by (simp add: read_header_example)
  have a: "read_gadget_snapshot example_snapshot True False False False t True =
     map_sum id (map_prod (map_ret_header lgadget_header) id)
       (read_gadget_snapshot example_snapshot True False False False 1 False)"
    unfolding read_gadget_snapshot_def Let_def read_header_lgadget rh
    by (simp add: req read_blocks_lgadget)
  show ?thesis
    unfolding a example_pos_only
    by (simp add: lgadget_header_def example_header_def list_update_Cons_numeral)
qed

section \<open>The claims\<close>

text \<open>
  C1. For every block that is processed, with total item count \<open>N\<close> and \<open>c\<close>
  components per item, the element width comes from the declared length \<open>L\<close> read from
  the 4 leading bytes: when \<open>L = N * c * 4\<close> the narrow type is used (float32 for
  position, velocity and mass, uint32 for the identifier); otherwise, when
  \<open>L = N * c * 8\<close>, the wide type (float64, uint64); when \<open>L\<close> is neither, the block
  fails with the invalid-block-size error. The narrow width is tried first, and each
  block decides from its own \<open>L\<close> alone. The theorem speaks of one run of the loop body on
  a stream that holds the 4 leading bytes: it fails when neither length matches; a block
  that is read comes back with the inferred element type; a block that is skipped is
  skipped by \<open>N * c\<close> elements of the inferred width.
\<close>

theorem block_width_inference:
  assumes "\<not> (i = 3 \<and> sum_list mass_npart = 0)"
    and "unpack_uint (fst (bread 4 s)) = Inr L"
  shows "(L \<noteq> sum_list (block_npart header mass_npart i) * block_item_per_part i * 4 \<and>
          L \<noteq> sum_list (block_npart header mass_npart i) * block_item_per_part i * 8 \<longrightarrow>
            process_block header mass_npart single_type blocks_to_read i b ret s =
              Inl (ValueError ''Invalid block size in file!'')) \<and>
         (\<forall>ctl ret' s'.
            process_block header mass_npart single_type blocks_to_read i True ret s =
              Inr (ctl, ret', s') \<longrightarrow>
            (\<exists>a. ret' = ret @ [PArray a] \<and>
                 nd_dtype a =
                   (if L = sum_list (block_npart header mass_npart i) * block_item_per_part i * 4
                    then (if i = 2 then UInt32 else Float32)
                    else (if i = 2 then UInt64 else Float64)))) \<and>
         (L = sum_list (block_npart header mass_npart i) * block_item_per_part i * 4 \<or>
          L = sum_list (block_npart header mass_npart i) * block_item_per_part i * 8 \<longrightarrow>
            process_block header mass_npart single_type blocks_to_read i False ret s =
              Inr (Continue, ret,
                   s\<lparr>pos := pos s + 4 +
                      sum_list (block_npart header mass_npart i) * block_item_per_part i *
                        (if L = sum_list (block_npart header mass_npart i) *
                                  block_item_per_part i * 4 then 4 else 8) + 4\<rparr>))"
proof -
  let ?N = "sum_list (block_npart header mass_npart i)"
  let ?c = "block_item_per_part i"
  note pb = process_block_eq[OF assms, of header single_type blocks_to_read]
  have rf: "resolve_fmt L (?c * ?N) (block_fmt i) (block_fmt_64 i) =
     (if L = ?N * ?c * 4 then Inr (block_fmt i)
      else if L = ?N * ?c * 8 then Inr (block_fmt_64 i)
      else Inl (ValueError ''Invalid block size in file!''))"
    by (rule resolve_fmt_cases)
  have f32: "block_fmt i = (if i = 2 then UInt32 else Float32)"
    and f64: "block_fmt_64 i = (if i = 2 then UInt64 else Float64)"
    by (simp_all add: block_fmt_def block_fmt_64_def)
  have r1: "resolve_fmt L (?c * ?N) (block_fmt i) (block_fmt_64 i) = Inr (block_fmt i)"
    if "L = ?N * ?c * 4"
    unfolding rf if_P[OF that] by (rule refl)
  have r2: "resolve_fmt L (?c * ?N) (block_fmt i) (block_fmt_64 i) = Inr (block_fmt_64 i)"
    if "L \<noteq> ?N * ?c * 4" "L = ?N * ?c * 8"
    unfolding rf if_not_P[OF that(1)] if_P[OF that(2)] by (rule refl)
  have r3: "resolve_fmt L (?c * ?N) (block_fmt i) (block_fmt_64 i) =
      Inl (ValueError ''Invalid block size in file!'')"
    if "L \<noteq> ?N * ?c * 4" "L \<noteq> ?N * ?c * 8"
    unfolding rf if_not_P[OF that(1)] if_not_P[OF that(2)] by (rule refl)
  have p1: "L \<noteq> ?N * ?c * 4 \<and> L \<noteq> ?N * ?c * 8 \<longrightarrow>
      process_block header mass_npart single_type blocks_to_read i b ret s =
        Inl (ValueError ''Invalid block size in file!'')"
  proof (intro impI, elim conjE)
    assume "L \<noteq> ?N * ?c * 4" "L \<noteq> ?N * ?c * 8"
    from r3[OF this] show "process_block header mass_npart single_type blocks_to_read i b ret s =
        Inl (ValueError ''Invalid block size in file!'')"
      unfolding pb by simp
  qed
  have p2: "\<exists>a. ret' = ret @ [PArray a] \<and>
       nd_dtype a = (if L = ?N * ?c * 4 then (if i = 2 then UInt32 else Float32)
                     else (if i = 2 then UInt64 else Float64))"
    if run: "process_block header mass_npart single_type blocks_to_read i True ret s =
          Inr (ctl, ret', s')" for ctl ret' s'
  proof (cases "L = ?N * ?c * 4")
    case True
    from run have "read_block (block_npart header mass_npart i) ?c (block_fmt i) single_type
         (py_any (drop (i + 1) blocks_to_read)) ret (s\<lparr>pos := pos s + 4\<rparr>) =
         Inr (ctl, ret', s')"
      unfolding pb r1[OF True] by simp
    from read_block_appends[OF this] obtain a where
      "ret' = ret @ [PArray a]" "nd_dtype a = block_fmt i" by blast
    then show ?thesis unfolding f32 if_P[OF True] by blast
  next
    case False
    show ?thesis
    proof (cases "L = ?N * ?c * 8")
      case True
      from run have "read_block (block_npart header mass_npart i) ?c (block_fmt_64 i)
           single_type (py_any (drop (i + 1) blocks_to_read)) ret (s\<lparr>pos := pos s + 4\<rparr>) =
           Inr (ctl, ret', s')"
        unfolding pb r2[OF False True] by simp
      from read_block_appends[OF this] obtain a where
        "ret' = ret @ [PArray a]" "nd_dtype a = block_fmt_64 i" by blast
      then show ?thesis unfolding f64 if_not_P[OF False] by blast
    next
      case F2: False
      from run show ?thesis unfolding pb r3[OF False F2] by simp
    qed
  qed
  have p3: "L = ?N * ?c * 4 \<or> L = ?N * ?c * 8 \<longrightarrow>
      process_block header mass_npart single_type blocks_to_read i False ret s =
        Inr (Continue, ret,
             s\<lparr>pos := pos s + 4 + ?N * ?c * (if L = ?N * ?c * 4 then 4 else 8) + 4\<rparr>)"
  proof (cases "L = ?N * ?c * 4")
    case True
    have "process_block header mass_npart single_type blocks_to_read i False ret s =
        Inr (Continue, ret, s\<lparr>pos := pos s + 4 + ?N * ?c * 4 + 4\<rparr>)"
      unfolding pb r1[OF True] by (simp add: f32 mult.assoc)
    then show ?thesis unfolding if_P[OF True] by blast
  next
    case False
    show ?thesis
    proof (intro impI)
      assume "L = ?N * ?c * 4 \<or> L = ?N * ?c * 8"
      with False have w: "L = ?N * ?c * 8" by blast
      have "process_block header mass_npart single_type blocks_to_read i False ret s =
          Inr (Continue, ret, s\<lparr>pos := pos s + 4 + ?N * ?c * 8 + 4\<rparr>)"
        unfolding pb r2[OF False w] by (simp add: f64 mult.assoc)
      then show "process_block header mass_npart single_type blocks_to_read i False ret s =
        Inr (Continue, ret,
             s\<lparr>pos := pos s + 4 + ?N * ?c * (if L = ?N * ?c * 4 then 4 else 8) + 4\<rparr>)"
        unfolding if_not_P[OF False] .
    qed
  qed
  from p1 p2 p3 show ?thesis by blast
qed

theorem block_width_inference_witness:
  "\<not> ((0::nat) = 3 \<and> sum_list [0, 0, 0, 0, 0, 0::nat] = 0) \<and>
   unpack_uint (fst (bread 4 (example_snapshot\<lparr>pos := 264\<rparr>))) = Inr 180 \<and>
   process_block example_header [0, 0, 0, 0, 0, 0] (-1) [False, True, False, False] 0 False []
     (example_snapshot\<lparr>pos := 264\<rparr>) = Inr (Continue, [], example_snapshot\<lparr>pos := 452\<rparr>)"
proof -
  have h1: "\<not> ((0::nat) = 3 \<and> sum_list [0, 0, 0, 0, 0, 0::nat] = 0)" by simp
  have h2: "unpack_uint (fst (bread 4 (example_snapshot\<lparr>pos := 264\<rparr>))) = Inr 180"
    by (simp add: example_snapshot_def bread_def unpack_uint_def example_blocks_def
          length_example_header_record)
  have n: "sum_list (block_npart example_header [0, 0, 0, 0, 0, 0] 0) * block_item_per_part 0
      = 45"
    by (simp add: block_npart_def example_header_def block_item_per_part_def)
  from block_width_inference[OF h1 h2, of example_header "-1" "[False, True, False, False]"
      False "[]"]
  have "process_block example_header [0, 0, 0, 0, 0, 0] (-1) [False, True, False, False] 0
      False [] (example_snapshot\<lparr>pos := 264\<rparr>) =
      Inr (Continue, [], example_snapshot\<lparr>pos := 452\<rparr>)"
    unfolding n by (simp add: example_snapshot_def)
  with h1 h2 show ?thesis by simp
qed

text \<open>
  C2 (as amended). When no block is requested and the stream holds the leading marker and
  the 196 bytes of the header fields, the call succeeds and leaves the stream 200 bytes
  after its starting position: after the last header field, before the 60 bytes of
  padding and the trailing marker of the header record. When the stream is shorter, the
  call fails with \<^verbatim>\<open>struct.error\<close>. The claim as stated (the stream is left after the
  header record, the value is the tuple \<^verbatim>\<open>(Header,)\<close>) fails on the example snapshot:
  line 76 returns before the two seeks of lines 78 and 79, and returns the header itself.
\<close>

theorem no_blocks_stream_position:
  "(pos s + 200 \<le> length (buf s) \<longrightarrow>
      map_sum id snd (read_gadget_snapshot s False False False False single_type lgadget) =
        Inr (s\<lparr>pos := pos s + 200\<rparr>)) \<and>
   (length (buf s) < pos s + 200 \<longrightarrow>
      read_gadget_snapshot s False False False False single_type lgadget = Inl StructError)"
  by (simp add: read_gadget_snapshot_def read_header_eq py_any_def)

theorem no_blocks_stream_position_witness:
  "pos example_snapshot + 200 \<le> length (buf example_snapshot) \<and>
   map_sum id snd (read_gadget_snapshot example_snapshot False False False False (-1) False) =
     Inr (example_snapshot\<lparr>pos := 200\<rparr>)"
proof -
  have h: "pos example_snapshot + 200 \<le> length (buf example_snapshot)"
    by (simp add: example_snapshot_def length_example_header_record)
  have p: "pos example_snapshot = 0" by (simp add: example_snapshot_def)
  from no_blocks_stream_position[of example_snapshot "-1" False] h
  have "map_sum id snd (read_gadget_snapshot example_snapshot False False False False (-1) False)
      = Inr (example_snapshot\<lparr>pos := pos example_snapshot + 200\<rparr>)"
    by blast
  with h show ?thesis unfolding p by simp
qed

theorem no_blocks_counterexample:
  "read_gadget_snapshot example_snapshot False False False False (-1) False =
     Inr (RetHeader example_header, example_snapshot\<lparr>pos := 200\<rparr>) \<and>
   read_gadget_snapshot example_snapshot False False False False (-1) False \<noteq>
     Inr (RetTuple [PHeader example_header], example_snapshot\<lparr>pos := 264\<rparr>)"
  by (simp add: read_gadget_snapshot_def example_snapshot_def read_header_example py_any_def)

text \<open>
  C3 (as amended). With \<^verbatim>\<open>lgadget=True\<close> the call gives what the plain call with
  \<open>single_type = 1\<close> gives on the same bytes, whatever \<open>single_type\<close> the caller
  passed, except for the header, in which \<open>NallHW[0]\<close> is zero, \<open>NallHW[1]\<close> holds the
  plain header's \<open>npartTotal[2]\<close>, and \<open>npartTotal[2]\<close> is zero. The entropy-ICS flag and
  the cooling flag are left as they are: on the example snapshot both stay 1, and
  \<open>NallHW[1]\<close> becomes 3, the third total count.
\<close>

theorem lgadget_remapping:
  "read_gadget_snapshot s rp rv ri rm t True =
     map_sum id (map_prod (map_ret_header lgadget_header) id)
       (read_gadget_snapshot s rp rv ri rm 1 False)"
proof (cases "read_header s False")
  case (Inl e)
  then show ?thesis
    by (simp add: read_gadget_snapshot_def read_header_lgadget)
next
  case (Inr hs)
  obtain H s2 where hs: "hs = (H, s2)" by (cases hs)
  show ?thesis
    unfolding read_gadget_snapshot_def Let_def read_header_lgadget Inr hs
    by (simp add: read_blocks_lgadget)
qed

theorem lgadget_remapping_witness:
  "read_gadget_snapshot example_snapshot True False False False 0 True =
     Inr (RetTuple [PHeader (example_header\<lparr>NallHW := [0, 3, 0, 0, 0, 0],
                                npartTotal := [5, 7, 0, 0, 0, 0]\<rparr>),
            PArray \<lparr>nd_dtype = Float32, nd_data = replicate 84 0, nd_shape = [7, 3]\<rparr>],
          example_snapshot\<lparr>pos := 412\<rparr>)"
  using lgadget_remapping[of example_snapshot True False False False 0]
  by (simp add: example_pos_only lgadget_header_def example_header_def
        list_update_Cons_numeral)

theorem lgadget_counterexample:
  "read_gadget_snapshot example_snapshot False False False False (-1) True =
     Inr (RetHeader (example_header\<lparr>NallHW := [0, 3, 0, 0, 0, 0],
                       npartTotal := [5, 7, 0, 0, 0, 0]\<rparr>), example_snapshot\<lparr>pos := 200\<rparr>) \<and>
   flag_entr_ics (example_header\<lparr>NallHW := [0, 3, 0, 0, 0, 0],
                       npartTotal := [5, 7, 0, 0, 0, 0]\<rparr>) = 1 \<and>
   flag_cooling (example_header\<lparr>NallHW := [0, 3, 0, 0, 0, 0],
                       npartTotal := [5, 7, 0, 0, 0, 0]\<rparr>) = 1"
  by (simp add: read_gadget_snapshot_def read_header_lgadget example_snapshot_def
        read_header_example py_any_def lgadget_header_def example_header_def
        list_update_Cons_numeral)







text \<open>
  C6 (as amended). For a block kind after which a later kind is still requested, on a
  stream that holds the block's declared payload, processing the block with its flag off
  (skip) and with its flag on (read) ends alike: the same error, or the loop goes on with
  the stream at the same offset, the next record's leading marker. On a stream cut inside
  the identifier payload the two offsets differ: 704 when the identifiers are read, 708
  when they are skipped.
\<close>

theorem skip_equivalence:
  assumes "i < 3"
    and "py_any (drop (i + 1) blocks_to_read)"
    and "unpack_uint (fst (bread 4 s)) = Inr L"
    and "pos s + 4 + L \<le> length (buf s)"
    and "single_type = -1 \<or> (0 \<le> single_type \<and> nat single_type < length (npart header))"
  shows "map_sum id (\<lambda>(ctl, r, s'). (ctl, s'))
           (process_block header mass_npart single_type blocks_to_read i True ret s) =
         map_sum id (\<lambda>(ctl, r, s'). (ctl, s'))
           (process_block header mass_npart single_type blocks_to_read i False ret s)"
proof -
  let ?N = "sum_list (block_npart header mass_npart i)"
  let ?c = "block_item_per_part i"
  have ne: "\<not> (i = 3 \<and> sum_list mass_npart = 0)" using assms(1) by simp
  have np: "block_npart header mass_npart i = npart header"
    using assms(1) by (simp add: block_npart_def)
  show ?thesis
  proof (cases "L = ?N * ?c * 4 \<or> L = ?N * ?c * 8")
    case False
    show ?thesis unfolding process_block_invalid[OF ne assms(3) False] ..
  next
    case True
    define fmt where "fmt = (if L = ?N * ?c * 4 then block_fmt i else block_fmt_64 i)"
    note sz = process_block_valid(1)[OF ne assms(3) True fmt_def]
    note pb = process_block_valid(2)[OF ne assms(3) True fmt_def]
    have av: "pos (s\<lparr>pos := pos s + 4\<rparr>) + ?N * (?c * itemsize fmt)
        \<le> length (buf (s\<lparr>pos := pos s + 4\<rparr>))"
      using assms(4) unfolding sz[symmetric] by simp
    have "\<exists>a. read_block (block_npart header mass_npart i) ?c fmt single_type True ret
              (s\<lparr>pos := pos s + 4\<rparr>) =
            Inr (Continue, ret @ [PArray a], s\<lparr>pos := pos s + 4 + L + 4\<rparr>)"
    proof (cases "single_type = -1")
      case True
      show ?thesis
        unfolding True read_block_all[OF block_item_per_part_pos av] sz[symmetric]
        by simp
    next
      case False
      with assms(5) have t: "0 \<le> single_type"
        "nat single_type < length (block_npart header mass_npart i)"
        unfolding np by blast+
      show ?thesis
        unfolding read_block_one[OF block_item_per_part_pos av t] sz[symmetric]
        by simp
    qed
    then obtain a where "read_block (block_npart header mass_npart i) ?c fmt single_type True ret
              (s\<lparr>pos := pos s + 4\<rparr>) =
            Inr (Continue, ret @ [PArray a], s\<lparr>pos := pos s + 4 + L + 4\<rparr>)" ..
    then show ?thesis
      unfolding pb using assms(2) by simp
  qed
qed

theorem skip_equivalence_witness:
  "(0::nat) < 3 \<and> py_any (drop (0 + 1) [True, True, False, False]) \<and>
   unpack_uint (fst (bread 4 (example_snapshot\<lparr>pos := 264\<rparr>))) = Inr 180 \<and>
   pos (example_snapshot\<lparr>pos := 264\<rparr>) + 4 + 180
     \<le> length (buf (example_snapshot\<lparr>pos := 264\<rparr>)) \<and>
   map_sum id (\<lambda>(ctl, r, s'). (ctl, s'))
     (process_block example_header [0, 0, 0, 0, 0, 0] (-1) [True, True, False, False] 0 True []
        (example_snapshot\<lparr>pos := 264\<rparr>)) = Inr (Continue, example_snapshot\<lparr>pos := 452\<rparr>) \<and>
   map_sum id (\<lambda>(ctl, r, s'). (ctl, s'))
     (process_block example_header [0, 0, 0, 0, 0, 0] (-1) [True, True, False, False] 0 False []
        (example_snapshot\<lparr>pos := 264\<rparr>)) = Inr (Continue, example_snapshot\<lparr>pos := 452\<rparr>)"
proof -
  have h1: "(0::nat) < 3" by simp
  have h2: "py_any (drop (0 + 1) [True, True, False, False])" by (simp add: py_any_def)
  note h3 = example_marker
  have h4: "pos (example_snapshot\<lparr>pos := 264\<rparr>) + 4 + 180
     \<le> length (buf (example_snapshot\<lparr>pos := 264\<rparr>))"
    by (simp add: example_snapshot_def length_example_header_record example_blocks_def)
  have h5: "(-1::int) = -1 \<or> (0 \<le> (-1::int) \<and> nat (-1) < length (npart example_header))"
    by simp
  have skip: "map_sum id (\<lambda>(ctl, r, s'). (ctl, s'))
     (process_block example_header [0, 0, 0, 0, 0, 0] (-1) [True, True, False, False] 0 False []
        (example_snapshot\<lparr>pos := 264\<rparr>)) = Inr (Continue, example_snapshot\<lparr>pos := 452\<rparr>)"
    by (simp add: example_snapshot_def example_eval)
  from skip_equivalence[OF h1 h2 h3 h4 h5, of "[0, 0, 0, 0, 0, 0]" "[]"] skip h1 h2 h3 h4
  show ?thesis by simp
qed

theorem skip_equivalence_counterexample:
  "read_gadget_snapshot truncated_snapshot False False True True (-1) False =
     Inr (RetTuple [PHeader example_header,
            PArray \<lparr>nd_dtype = UInt32, nd_data = replicate 56 0, nd_shape = [14]\<rparr>,
            PArray (np_empty Float32)],
          truncated_snapshot\<lparr>pos := 704\<rparr>) \<and>
   read_gadget_snapshot truncated_snapshot False False False True (-1) False =
     Inr (RetTuple [PHeader example_header, PArray (np_empty Float32)],
          truncated_snapshot\<lparr>pos := 708\<rparr>)"
proof -
  have a: "read_gadget_snapshot truncated_snapshot False False True True (-1) False =
     Inr (RetTuple [PHeader example_header,
            PArray \<lparr>nd_dtype = UInt32, nd_data = replicate 56 0, nd_shape = [14]\<rparr>,
            PArray (np_empty Float32)],
          truncated_snapshot\<lparr>pos := 704\<rparr>)"
    unfolding truncated_snapshot_def
    by (subst read_gadget_snapshot_example) (simp_all add: example_eval)
  have b: "read_gadget_snapshot truncated_snapshot False False False True (-1) False =
     Inr (RetTuple [PHeader example_header, PArray (np_empty Float32)],
          truncated_snapshot\<lparr>pos := 708\<rparr>)"
    unfolding truncated_snapshot_def
    by (subst read_gadget_snapshot_example) (simp_all add: example_eval)
  from a b show ?thesis by simp
qed






text \<open>
  C9 (as amended). A block whose declared length matches neither width aborts the loop,
  and so the call, with \<^verbatim>\<open>ValueError('Invalid block size in file!')\<close>: a fixed message
  that names neither the block kind nor the length. The counterexample shows the same
  error value for a position record that declares 5 bytes and for an identifier record
  that declares 7 bytes.
\<close>

theorem invalid_block_size_error:
  assumes "\<not> (i = 3 \<and> sum_list mass_npart = 0)"
    and "unpack_uint (fst (bread 4 s)) = Inr L"
    and "L \<noteq> sum_list (block_npart header mass_npart i) * block_item_per_part i * 4"
    and "L \<noteq> sum_list (block_npart header mass_npart i) * block_item_per_part i * 8"
  shows "block_loop header mass_npart single_type blocks_to_read ((i, b) # rest) ret s =
           Inl (ValueError ''Invalid block size in file!'')"
proof -
  have "resolve_fmt L (block_item_per_part i * sum_list (block_npart header mass_npart i))
          (block_fmt i) (block_fmt_64 i) = Inl (ValueError ''Invalid block size in file!'')"
    unfolding resolve_fmt_cases if_not_P[OF assms(3)] if_not_P[OF assms(4)] ..
  then have "process_block header mass_npart single_type blocks_to_read i b ret s =
      Inl (ValueError ''Invalid block size in file!'')"
    unfolding process_block_eq[OF assms(1,2)] by simp
  then show ?thesis by simp
qed

theorem invalid_block_size_error_witness:
  "\<not> ((0::nat) = 3 \<and> sum_list [0, 0, 0, 0, 0, 0::nat] = 0) \<and>
   unpack_uint (fst (bread 4 (bad_position_snapshot\<lparr>pos := 264\<rparr>))) = Inr 5 \<and>
   5 \<noteq> sum_list (block_npart example_header [0, 0, 0, 0, 0, 0] 0) * block_item_per_part 0 * 4 \<and>
   5 \<noteq> sum_list (block_npart example_header [0, 0, 0, 0, 0, 0] 0) * block_item_per_part 0 * 8 \<and>
   block_loop example_header [0, 0, 0, 0, 0, 0] (-1) [True, False, False, False]
     [(0, True), (1, False), (2, False), (3, False)] [PHeader example_header]
     (bad_position_snapshot\<lparr>pos := 264\<rparr>) = Inl (ValueError ''Invalid block size in file!'')"
proof -
  have h1: "\<not> ((0::nat) = 3 \<and> sum_list [0, 0, 0, 0, 0, 0::nat] = 0)" by simp
  have h2: "unpack_uint (fst (bread 4 (bad_position_snapshot\<lparr>pos := 264\<rparr>))) = Inr 5"
    by (simp add: bad_position_snapshot_def bread_def unpack_uint_def Let_def
          length_example_header_record)
  have h3: "5 \<noteq> sum_list (block_npart example_header [0, 0, 0, 0, 0, 0] 0) *
      block_item_per_part 0 * 4"
    by (simp add: block_npart_def example_header_def block_item_per_part_def)
  have h4: "5 \<noteq> sum_list (block_npart example_header [0, 0, 0, 0, 0, 0] 0) *
      block_item_per_part 0 * 8"
    by (simp add: block_npart_def example_header_def block_item_per_part_def)
  from invalid_block_size_error[OF h1 h2 h3 h4] h1 h2 h3 h4 show ?thesis by blast
qed

theorem invalid_block_size_counterexample:
  "read_gadget_snapshot bad_position_snapshot True False False False (-1) False =
     Inl (ValueError ''Invalid block size in file!'') \<and>
   read_gadget_snapshot bad_identifier_snapshot False False True False (-1) False =
     Inl (ValueError ''Invalid block size in file!'')"
proof -
  have a: "read_gadget_snapshot bad_position_snapshot True False False False (-1) False =
     Inl (ValueError ''Invalid block size in file!'')"
    unfolding bad_position_snapshot_def
    by (subst read_gadget_snapshot_example) (simp_all add: block_eval)
  have b: "read_gadget_snapshot bad_identifier_snapshot False False True False (-1) False =
     Inl (ValueError ''Invalid block size in file!'')"
    unfolding bad_identifier_snapshot_def
    by (subst read_gadget_snapshot_example) (simp_all add: block_eval)
  from a b show ?thesis by simp
qed

text \<open>
  C10 (as amended). In a call without \<^verbatim>\<open>lgadget\<close>, a \<open>single_type\<close> outside \<open>0..5\<close> (such as
  \<open>-1\<close>, \<open>6\<close> or \<open>-3\<close>) is silently taken as a read of all particle types: the call
  gives the result, or the error, of the same call with \<open>single_type = -1\<close>, and the
  selector raises nothing (no IndexError). The walk over the kinds runs with selector
  \<open>-1\<close>, and with that selector every block read, given a valid length marker and a stream
  that holds the payload, returns the whole declared payload: \<open>sum(npart)\<close> items of the
  kind's width, the stream ending after them. So a call for the positions alone returns
  \<open>sum(npart)\<close> triples. With \<^verbatim>\<open>lgadget=True\<close> the caller's selector is never consulted: line
  68 sets it to 1 and the walk runs with selector 1, so the call reads type 1 alone. On
  the example snapshot, counts \<open>(5, 7, 3, 0, 0, 0)\<close>, selector 6 with \<^verbatim>\<open>lgadget=True\<close>
  returns 7 triples and leaves the stream at 412; without \<^verbatim>\<open>lgadget\<close> it returns 15
  triples and leaves it at 448.
\<close>

theorem out_of_range_single_type:
  assumes "\<not> (0 \<le> t \<and> t \<le> 5)"
  shows
    "read_gadget_snapshot s rp rv ri rm t False =
       read_gadget_snapshot s rp rv ri rm (-1) False \<and>
     read_gadget_snapshot s rp rv ri rm t False \<noteq> Inl IndexError \<and>
     read_gadget_snapshot s rp rv ri rm t lg =
       (case read_header s lg of
          Inl e \<Rightarrow> Inl e
        | Inr (H, s2) \<Rightarrow>
           if \<not> py_any [rp, rv, ri, rm] then Inr (RetHeader H, s2)
           else (case block_loop H (mass_npart_of H) (if lg then 1 else -1)
                        [rp, rv, ri, rm] (enumerate 0 [rp, rv, ri, rm]) []
                        (bseek 4 (bseek (256 - calcsize gadget_header_fmt) s2)) of
                   Inl e \<Rightarrow> Inl e
                 | Inr (r, s') \<Rightarrow> Inr (RetTuple (PHeader H # r), s'))) \<and>
     (\<forall>H mn btr i ret s' L.
        \<not> (i = 3 \<and> sum_list mn = 0) \<and>
        unpack_uint (fst (bread 4 s')) = Inr L \<and>
        (L = sum_list (block_npart H mn i) * block_item_per_part i * 4 \<or>
         L = sum_list (block_npart H mn i) * block_item_per_part i * 8) \<and>
        pos s' + 4 + L \<le> length (buf s') \<longrightarrow>
        process_block H mn (-1) btr i True ret s' =
          Inr (if py_any (drop (i + 1) btr) then Continue else Break,
               ret @ [PArray \<lparr>nd_dtype = (if L = sum_list (block_npart H mn i) *
                                                 block_item_per_part i * 4
                                          then block_fmt i else block_fmt_64 i),
                        nd_data = take L (drop (pos s' + 4) (buf s')),
                        nd_shape = (if 1 < block_item_per_part i
                                    then [sum_list (block_npart H mn i), block_item_per_part i]
                                    else [sum_list (block_npart H mn i)])\<rparr>],
               s'\<lparr>pos := (if py_any (drop (i + 1) btr) then pos s' + 4 + L + 4
                          else pos s' + 4 + L)\<rparr>)) \<and>
     (\<forall>H s2 L.
        read_header s False = Inr (H, s2) \<and>
        unpack_uint (fst (bread 4 (bseek 4 (bseek (256 - calcsize gadget_header_fmt) s2))))
          = Inr L \<and>
        (L = sum_list (npart H) * 3 * 4 \<or> L = sum_list (npart H) * 3 * 8) \<and>
        pos s2 + 68 + L \<le> length (buf s2) \<longrightarrow>
        read_gadget_snapshot s True False False False t False =
          Inr (RetTuple [PHeader H,
                 PArray \<lparr>nd_dtype = (if L = sum_list (npart H) * 3 * 4
                                      then Float32 else Float64),
                          nd_data = take L (drop (pos s2 + 68) (buf s2)),
                          nd_shape = [sum_list (npart H), 3]\<rparr>],
               s2\<lparr>pos := pos s2 + 68 + L\<rparr>))"
proof -
  have n: "(if t \<notin> set [0..5] then -1 else t) = (-1::int)"
    using assms by auto
  have m: "(if (-1::int) \<notin> set [0..5] then -1 else -1) = (-1::int)" by simp
  have sel: "(if lg then 1 else if t \<notin> set [0..5] then -1 else t) = (if lg then 1 else -1::int)"
    unfolding n ..
  have c1: "read_gadget_snapshot s rp rv ri rm t False =
              read_gadget_snapshot s rp rv ri rm (-1) False"
    unfolding read_gadget_snapshot_loop n m ..
  have c2: "read_gadget_snapshot s rp rv ri rm t False \<noteq> Inl IndexError"
  proof (cases "read_header s False")
    case (Inl e)
    with read_header_no_index_error[of s False] show ?thesis
      unfolding read_gadget_snapshot_loop by simp
  next
    case (Inr hs)
    obtain H s2 where hs: "hs = (H, s2)" by (cases hs)
    show ?thesis
      unfolding read_gadget_snapshot_loop Inr hs n
      using block_loop_no_index_error[of H "mass_npart_of H" "[rp, rv, ri, rm]"
              "enumerate 0 [rp, rv, ri, rm]" "[]"
              "bseek 4 (bseek (256 - calcsize gadget_header_fmt) s2)"]
      by (auto split: sum.splits prod.splits simp del: enumerate_simps)
  qed
  have c3: "read_gadget_snapshot s rp rv ri rm t lg =
       (case read_header s lg of
          Inl e \<Rightarrow> Inl e
        | Inr (H, s2) \<Rightarrow>
           if \<not> py_any [rp, rv, ri, rm] then Inr (RetHeader H, s2)
           else (case block_loop H (mass_npart_of H) (if lg then 1 else -1)
                        [rp, rv, ri, rm] (enumerate 0 [rp, rv, ri, rm]) []
                        (bseek 4 (bseek (256 - calcsize gadget_header_fmt) s2)) of
                   Inl e \<Rightarrow> Inl e
                 | Inr (r, s') \<Rightarrow> Inr (RetTuple (PHeader H # r), s')))"
    unfolding read_gadget_snapshot_loop sel ..
  note c4 = process_block_full
  note c5 = read_pos_only_full[OF assms]
  from c1 c2 c3 c4 c5 show ?thesis by blast
qed

theorem out_of_range_single_type_witness:
  "\<not> (0 \<le> (6::int) \<and> (6::int) \<le> 5) \<and>
   read_header example_snapshot False = Inr (example_header, example_snapshot\<lparr>pos := 200\<rparr>) \<and>
   unpack_uint (fst (bread 4 (example_snapshot\<lparr>pos := 264\<rparr>))) = Inr 180 \<and>
   pos (example_snapshot\<lparr>pos := 264\<rparr>) + 4 + 180
     \<le> length (buf (example_snapshot\<lparr>pos := 264\<rparr>)) \<and>
   read_gadget_snapshot example_snapshot True False False False 6 False =
     Inr (RetTuple [PHeader example_header,
            PArray \<lparr>nd_dtype = Float32, nd_data = replicate 180 0, nd_shape = [15, 3]\<rparr>],
          example_snapshot\<lparr>pos := 448\<rparr>) \<and>
   read_gadget_snapshot example_snapshot True False False False (-1) False =
     Inr (RetTuple [PHeader example_header,
            PArray \<lparr>nd_dtype = Float32, nd_data = replicate 180 0, nd_shape = [15, 3]\<rparr>],
          example_snapshot\<lparr>pos := 448\<rparr>) \<and>
   process_block example_header [0, 0, 0, 0, 0, 0] (-1) [True, False, False, False] 0 True []
       (example_snapshot\<lparr>pos := 264\<rparr>) =
     Inr (Break,
          [PArray \<lparr>nd_dtype = Float32, nd_data = replicate 180 0, nd_shape = [15, 3]\<rparr>],
          example_snapshot\<lparr>pos := 448\<rparr>)"
proof -
  have h0: "\<not> (0 \<le> (6::int) \<and> (6::int) \<le> 5)" by simp
  note inst = out_of_range_single_type[OF h0, of example_snapshot True False False False False]
  have rh: "read_header example_snapshot False =
              Inr (example_header, example_snapshot\<lparr>pos := 200\<rparr>)"
    unfolding example_snapshot_def by (simp add: read_header_example)
  have s4: "bseek 4 (bseek (256 - calcsize gadget_header_fmt) (example_snapshot\<lparr>pos := 200\<rparr>))
              = example_snapshot\<lparr>pos := 264\<rparr>"
    by (simp add: bseek_def calcsize_hdr)
  note mk = example_marker
  have av: "pos (example_snapshot\<lparr>pos := 264\<rparr>) + 4 + 180
     \<le> length (buf (example_snapshot\<lparr>pos := 264\<rparr>))"
    by (simp add: example_snapshot_def length_example_header_record example_blocks_def)
  have dat: "take 180 (drop 268 (buf example_snapshot)) = replicate 180 0"
    by (simp add: example_snapshot_def length_example_header_record example_blocks_def)
  have sm: "sum_list (npart example_header) = 15"
    by (simp add: example_header_def)
  have eq: "read_gadget_snapshot example_snapshot True False False False 6 False =
              read_gadget_snapshot example_snapshot True False False False (-1) False"
    using inst by blast
  have call: "read_gadget_snapshot example_snapshot True False False False 6 False =
     Inr (RetTuple [PHeader example_header,
            PArray \<lparr>nd_dtype = Float32, nd_data = replicate 180 0, nd_shape = [15, 3]\<rparr>],
          example_snapshot\<lparr>pos := 448\<rparr>)"
  proof -
    from inst have "read_header example_snapshot False =
                     Inr (example_header, example_snapshot\<lparr>pos := 200\<rparr>) \<and>
        unpack_uint (fst (bread 4 (bseek 4 (bseek (256 - calcsize gadget_header_fmt)
                                              (example_snapshot\<lparr>pos := 200\<rparr>))))) = Inr 180 \<and>
        (180 = sum_list (npart example_header) * 3 * 4 \<or>
         180 = sum_list (npart example_header) * 3 * 8) \<and>
        pos (example_snapshot\<lparr>pos := 200\<rparr>) + 68 + 180
          \<le> length (buf (example_snapshot\<lparr>pos := 200\<rparr>)) \<longrightarrow>
        read_gadget_snapshot example_snapshot True False False False 6 False =
          Inr (RetTuple [PHeader example_header,
                 PArray \<lparr>nd_dtype = (if 180 = sum_list (npart example_header) * 3 * 4
                                      then Float32 else Float64),
                          nd_data = take 180 (drop (pos (example_snapshot\<lparr>pos := 200\<rparr>) + 68)
                                                (buf (example_snapshot\<lparr>pos := 200\<rparr>))),
                          nd_shape = [sum_list (npart example_header), 3]\<rparr>],
               example_snapshot\<lparr>pos := 200\<rparr>\<lparr>pos := pos (example_snapshot\<lparr>pos := 200\<rparr>) + 68 + 180\<rparr>)"
      by blast
    with rh mk av show ?thesis
      unfolding s4 sm by (simp add: dat)
  qed
  have step: "process_block example_header [0, 0, 0, 0, 0, 0] (-1) [True, False, False, False] 0
       True [] (example_snapshot\<lparr>pos := 264\<rparr>) =
     Inr (Break,
          [PArray \<lparr>nd_dtype = Float32, nd_data = replicate 180 0, nd_shape = [15, 3]\<rparr>],
          example_snapshot\<lparr>pos := 448\<rparr>)"
  proof -
    from inst have "\<not> ((0::nat) = 3 \<and> sum_list [0, 0, 0, 0, 0, 0::nat] = 0) \<and>
        unpack_uint (fst (bread 4 (example_snapshot\<lparr>pos := 264\<rparr>))) = Inr 180 \<and>
        (180 = sum_list (block_npart example_header [0, 0, 0, 0, 0, 0] 0) *
                 block_item_per_part 0 * 4 \<or>
         180 = sum_list (block_npart example_header [0, 0, 0, 0, 0, 0] 0) *
                 block_item_per_part 0 * 8) \<and>
        pos (example_snapshot\<lparr>pos := 264\<rparr>) + 4 + 180
          \<le> length (buf (example_snapshot\<lparr>pos := 264\<rparr>)) \<longrightarrow>
        process_block example_header [0, 0, 0, 0, 0, 0] (-1) [True, False, False, False] 0
            True [] (example_snapshot\<lparr>pos := 264\<rparr>) =
          Inr (if py_any (drop (0 + 1) [True, False, False, False]) then Continue else Break,
               [] @ [PArray \<lparr>nd_dtype =
                          (if 180 = sum_list (block_npart example_header [0, 0, 0, 0, 0, 0] 0) *
                                      block_item_per_part 0 * 4
                           then block_fmt 0 else block_fmt_64 0),
                        nd_data = take 180 (drop (pos (example_snapshot\<lparr>pos := 264\<rparr>) + 4)
                                              (buf (example_snapshot\<lparr>pos := 264\<rparr>))),
                        nd_shape = (if 1 < block_item_per_part 0
                                    then [sum_list (block_npart example_header
                                                      [0, 0, 0, 0, 0, 0] 0),
                                          block_item_per_part 0]
                                    else [sum_list (block_npart example_header
                                                      [0, 0, 0, 0, 0, 0] 0)])\<rparr>],
               example_snapshot\<lparr>pos := 264\<rparr>\<lparr>pos :=
                  (if py_any (drop (0 + 1) [True, False, False, False])
                   then pos (example_snapshot\<lparr>pos := 264\<rparr>) + 4 + 180 + 4
                   else pos (example_snapshot\<lparr>pos := 264\<rparr>) + 4 + 180)\<rparr>)"
      by blast
    with mk av show ?thesis
      by (simp add: example_geometry py_any_def block_fmt_def dat)
  qed
  from h0 rh mk av call eq step show ?thesis by simp
qed

theorem out_of_range_counterexample:
  "\<not> (0 \<le> (6::int) \<and> (6::int) \<le> 5) \<and>
   read_gadget_snapshot example_snapshot True False False False 6 True =
     Inr (RetTuple [PHeader (example_header\<lparr>NallHW := [0, 3, 0, 0, 0, 0],
                                npartTotal := [5, 7, 0, 0, 0, 0]\<rparr>),
            PArray \<lparr>nd_dtype = Float32, nd_data = replicate 84 0, nd_shape = [7, 3]\<rparr>],
          example_snapshot\<lparr>pos := 412\<rparr>) \<and>
   npart (example_header\<lparr>NallHW := [0, 3, 0, 0, 0, 0],
                          npartTotal := [5, 7, 0, 0, 0, 0]\<rparr>) = [5, 7, 3, 0, 0, 0]"
  by (simp add: example_lgadget_pos_only) (simp add: example_header_def)

end
